theory Spec2Isabelle
  imports Main "HOL-Library.Char_ord" "HOL-Library.List_Lexorder" "HOL-Library.Multiset"
begin

section \<open>Social network API (lab5/app/main.py): data model\<close>

text \<open>
  The service keeps all of its state in an SQLite database (tables users, posts, comments,
  likes, media, sessions, created by \<open>init_db\<close>) and in the upload directory. Each table is a
  list of rows in rowid order; a row is a record with the columns of the CREATE TABLE
  statement. Text is \<open>string\<close>: a list of characters with code points 0..255. Nullable
  columns are options. Python integers are \<open>int\<close>.
\<close>

record user_row =
  u_id :: int
  u_name :: string
  u_email :: string
  u_password_hash :: string
  u_avatar_url :: "string option"
  u_created_at :: string

record post_row =
  p_id :: int
  p_author_id :: int
  p_text :: string
  p_image_url :: "string option"
  p_created_at :: string
  p_updated_at :: "string option"

record comment_row =
  c_id :: int
  c_post_id :: int
  c_author_id :: int
  c_text :: string
  c_created_at :: string

record like_row =
  l_id :: int
  l_post_id :: int
  l_user_id :: int
  l_created_at :: string

record media_row =
  m_id :: int
  m_owner_type :: string
  m_owner_id :: int
  m_url :: string
  m_type :: string
  m_created_at :: string

record session_row =
  s_token :: string
  s_user_id :: int
  s_created_at :: string

text \<open>
  The store: the six tables, the AUTOINCREMENT counters that SQLite keeps in
  \<open>sqlite_sequence\<close> (the largest rowid ever handed out per table), and the files under
  \<open>UPLOAD_DIR\<close> as pairs of file name and contents.
\<close>

record store =
  users :: "user_row list"
  posts :: "post_row list"
  comments :: "comment_row list"
  likes :: "like_row list"
  media :: "media_row list"
  sessions :: "session_row list"
  seq_users :: int
  seq_posts :: int
  seq_comments :: int
  seq_likes :: int
  seq_media :: int
  uploads :: "(string \<times> string) list"

text \<open>
  What the handlers take from outside the repository: \<open>hashlib.sha256(..).hexdigest()\<close>,
  the \<open>APP_SECRET\<close> setting, \<open>pathlib.Path(..).suffix\<close>, and whether a connection opened by
  \<open>_db.connect()\<close> enforces foreign keys. \<open>init_db\<close> issues \<open>PRAGMA foreign_keys = ON\<close> on its
  own connection only; every handler opens a new connection and issues no pragma, so the
  handlers run with the default of the SQLite library in use: off, unless the library was
  built with \<open>SQLITE_DEFAULT_FOREIGN_KEYS=1\<close>. It is the field \<open>foreign_keys\<close> here.
\<close>

record env =
  sha256_hexdigest :: "string \<Rightarrow> string"
  SECRET :: string
  path_suffix :: "string \<Rightarrow> string"
  foreign_keys :: bool

text \<open>
  The \<open>detail\<close> texts of the HTTPExceptions raised by the handlers (Russian in the source):
  one constructor per distinct text.
\<close>

datatype detail =
    Email_in_use            \<comment> \<open>"Email is already in use"\<close>
  | Bad_credentials         \<comment> \<open>"Wrong email or password"\<close>
  | Auth_required           \<comment> \<open>"Authorization required"\<close>
  | Invalid_token           \<comment> \<open>"Invalid token"\<close>
  | No_file                 \<comment> \<open>"No file selected"\<close>
  | Bad_image_format        \<comment> \<open>"Unsupported image format"\<close>
  | Empty_file              \<comment> \<open>"Empty file"\<close>
  | Post_text_required      \<comment> \<open>"Post text is required"\<close>
  | Post_not_found          \<comment> \<open>"Post not found"\<close>
  | No_access               \<comment> \<open>"No access"\<close>
  | Comment_text_required   \<comment> \<open>"Comment text is required"\<close>
  | Like_exists             \<comment> \<open>"Like already set"\<close>

text \<open>
  A handler ends by returning a value, by raising \<open>HTTPException(status_code, detail)\<close>, or
  with an \<open>sqlite3.IntegrityError\<close>, an \<open>OverflowError\<close> or a \<open>TypeError\<close> that no \<open>except\<close>
  clause catches (the framework then answers 500).
\<close>

datatype error = HTTPException int detail | IntegrityError | OverflowError | TypeError

subsection \<open>Request and response models\<close>

record RegisterIn =
  ri_name :: string
  ri_email :: string
  ri_password :: string

record LoginIn =
  li_email :: string
  li_password :: string

record TokenOut =
  token :: string

record PostOut =
  po_id :: int
  po_author_id :: int
  po_author_name :: string
  po_author_avatar_url :: "string option"
  po_text :: string
  po_image_url :: "string option"
  po_created_at :: string
  po_updated_at :: "string option"
  po_likes_count :: int
  po_comments_count :: int
  po_liked_by_me :: bool

record CommentOut =
  co_id :: int
  co_post_id :: int
  co_author_id :: int
  co_author_name :: string
  co_author_avatar_url :: "string option"
  co_text :: string
  co_created_at :: string

record PostDetailOut =
  pd_post :: PostOut
  pd_comments :: "CommentOut list"
  pd_liked_by_me :: bool

record UserOut =
  uo_id :: int
  uo_name :: string
  uo_email :: string
  uo_avatar_url :: "string option"
  uo_created_at :: string

record CommentIn =
  ci_text :: string

text \<open>An uploaded file: its name as sent by the client (possibly missing) and its bytes.\<close>

record UploadFile =
  filename :: "string option"
  contents :: string

text \<open>Of a request the handlers read the Authorization header only.\<close>

record request =
  authorization :: "string option"

datatype ack = Status_ok   \<comment> \<open>the body \<open>{"status": "ok"}\<close>\<close>

subsection \<open>Python string operations\<close>

definition is_space :: "char \<Rightarrow> bool" where
  "is_space c = ((of_char c :: int) \<in> {9, 10, 11, 12, 13, 28, 29, 30, 31, 32, 133, 160})"

definition str_strip :: "string \<Rightarrow> string" where
  "str_strip s = rev (dropWhile is_space (rev (dropWhile is_space s)))"

definition lower_char :: "char \<Rightarrow> char" where
  "lower_char c =
     (let n = (of_char c :: int)
      in if (65 \<le> n \<and> n \<le> 90) \<or> (192 \<le> n \<and> n \<le> 222 \<and> n \<noteq> 215)
         then char_of (n + 32) else c)"

definition str_lower :: "string \<Rightarrow> string" where
  "str_lower s = map lower_char s"

text \<open>\<open>s.replace(old, "")\<close> for a non-empty \<open>old\<close>: occurrences are removed left to right.\<close>

function remove_all :: "string \<Rightarrow> string \<Rightarrow> string" where
  "remove_all old [] = []"
| "remove_all old (c # cs) =
     (if old \<noteq> [] \<and> take (length old) (c # cs) = old
      then remove_all old (drop (length old) (c # cs))
      else c # remove_all old cs)"
  by pat_completeness auto
termination
  by (relation "measure (\<lambda>(old, s). length s)") (auto simp: neq_Nil_conv)

text \<open>\<open>str(i)\<close> for an integer: its decimal digits, with a minus sign when negative.\<close>

definition digit_char :: "int \<Rightarrow> char" where
  "digit_char d = char_of (48 + d)"

function str_digits :: "int \<Rightarrow> string" where
  "str_digits n =
     (if n < 10 then [digit_char n] else str_digits (n div 10) @ [digit_char (n mod 10)])"
  by pat_completeness auto
termination
  by (relation "measure nat") auto

definition str_int :: "int \<Rightarrow> string" where
  "str_int i = (if i < 0 then CHR ''-'' # str_digits (- i) else str_digits i)"

text \<open>
  \<open>datetime.utcnow()\<close> as the clock reads it, and \<open>_now_iso\<close>: \<open>isoformat()\<close> writes
  \<open>YYYY-MM-DDTHH:MM:SS.ffffff\<close>, and leaves the fraction out when the microsecond is 0.
  \<open>earlier\<close> is the order of the readings in time.
\<close>

record utc_time =
  t_year :: int
  t_month :: int
  t_day :: int
  t_hour :: int
  t_minute :: int
  t_second :: int
  t_microsecond :: int

definition zero_pad :: "nat \<Rightarrow> int \<Rightarrow> string" where
  "zero_pad width i = replicate (width - length (str_int i)) CHR ''0'' @ str_int i"

definition now_iso :: "utc_time \<Rightarrow> string" where
  "now_iso t =
     zero_pad 4 (t_year t) @ ''-'' @ zero_pad 2 (t_month t) @ ''-'' @ zero_pad 2 (t_day t) @ ''T''
     @ zero_pad 2 (t_hour t) @ '':'' @ zero_pad 2 (t_minute t) @ '':'' @ zero_pad 2 (t_second t)
     @ (if t_microsecond t = 0 then [] else ''.'' @ zero_pad 6 (t_microsecond t))
     @ ''Z''"

definition earlier :: "utc_time \<Rightarrow> utc_time \<Rightarrow> bool" where
  "earlier a b \<longleftrightarrow>
     [t_year a, t_month a, t_day a, t_hour a, t_minute a, t_second a, t_microsecond a]
     < [t_year b, t_month b, t_day b, t_hour b, t_minute b, t_second b, t_microsecond b]"

subsection \<open>SQL statements\<close>

text \<open>
  A Python integer is bound to a parameter of a statement only when it fits the signed
  64-bit INTEGER of SQLite; for any other, \<open>conn.execute\<close> raises \<open>OverflowError\<close>. The
  integers that the handlers bind from a request are the post id of the path and the limit
  and offset of the feed.
\<close>

definition fits_int64 :: "int \<Rightarrow> bool" where
  "fits_int64 i \<longleftrightarrow> - 9223372036854775808 \<le> i \<and> i \<le> 9223372036854775807"

text \<open>
  \<open>INTEGER PRIMARY KEY AUTOINCREMENT\<close>: the new rowid is one more than the largest rowid the
  table has ever held. (A table that has reached the largest rowid, 9223372036854775807,
  accepts no further row; the model has no such bound.)
\<close>

definition next_id :: "int \<Rightarrow> int list \<Rightarrow> int" where
  "next_id seq ids = fold max ids seq + 1"

text \<open>\<open>cursor.fetchone()\<close>\<close>

definition fetchone :: "'a list \<Rightarrow> 'a option" where
  "fetchone rows = (case rows of [] \<Rightarrow> None | r # _ \<Rightarrow> Some r)"

text \<open>\<open>INSERT INTO users (name, email, password_hash, created_at)\<close>; email is UNIQUE.\<close>

definition insert_user :: "string \<Rightarrow> string \<Rightarrow> string \<Rightarrow> string \<Rightarrow> store \<Rightarrow> error + (int \<times> store)" where
  "insert_user nm em ph created s =
     (if em \<in> set (map u_email (users s)) then Inl IntegrityError
      else let i = next_id (seq_users s) (map u_id (users s))
           in Inr (i, s\<lparr>users := users s @
                 [\<lparr>u_id = i, u_name = nm, u_email = em, u_password_hash = ph,
                   u_avatar_url = None, u_created_at = created\<rparr>],
                 seq_users := i\<rparr>))"

text \<open>
  \<open>INSERT INTO sessions (token, user_id, created_at)\<close>; token is the primary key and
  user_id references users(id).
\<close>

definition insert_session :: "bool \<Rightarrow> string \<Rightarrow> int \<Rightarrow> string \<Rightarrow> store \<Rightarrow> error + store" where
  "insert_session fk tok uid created s =
     (if tok \<in> set (map s_token (sessions s)) then Inl IntegrityError
      else if fk \<and> uid \<notin> set (map u_id (users s)) then Inl IntegrityError
      else Inr (s\<lparr>sessions := sessions s @
                 [\<lparr>s_token = tok, s_user_id = uid, s_created_at = created\<rparr>]\<rparr>))"

text \<open>\<open>INSERT INTO posts (author_id, text, image_url, created_at)\<close>\<close>

definition insert_post :: "bool \<Rightarrow> int \<Rightarrow> string \<Rightarrow> string option \<Rightarrow> string \<Rightarrow> store \<Rightarrow> error + (int \<times> store)" where
  "insert_post fk author txt image_url created s =
     (if fk \<and> author \<notin> set (map u_id (users s)) then Inl IntegrityError
      else let i = next_id (seq_posts s) (map p_id (posts s))
           in Inr (i, s\<lparr>posts := posts s @
                 [\<lparr>p_id = i, p_author_id = author, p_text = txt, p_image_url = image_url,
                   p_created_at = created, p_updated_at = None\<rparr>],
                 seq_posts := i\<rparr>))"

text \<open>\<open>INSERT INTO comments (post_id, author_id, text, created_at)\<close>\<close>

definition insert_comment :: "bool \<Rightarrow> int \<Rightarrow> int \<Rightarrow> string \<Rightarrow> string \<Rightarrow> store \<Rightarrow> error + (int \<times> store)" where
  "insert_comment fk post_id author txt created s =
     (if fk \<and> (post_id \<notin> set (map p_id (posts s)) \<or> author \<notin> set (map u_id (users s)))
      then Inl IntegrityError
      else let i = next_id (seq_comments s) (map c_id (comments s))
           in Inr (i, s\<lparr>comments := comments s @
                 [\<lparr>c_id = i, c_post_id = post_id, c_author_id = author, c_text = txt,
                   c_created_at = created\<rparr>],
                 seq_comments := i\<rparr>))"

text \<open>\<open>INSERT INTO likes (post_id, user_id, created_at)\<close>; UNIQUE(post_id, user_id).\<close>

definition insert_like :: "bool \<Rightarrow> int \<Rightarrow> int \<Rightarrow> string \<Rightarrow> store \<Rightarrow> error + store" where
  "insert_like fk post_id uid created s =
     (if (post_id, uid) \<in> set (map (\<lambda>l. (l_post_id l, l_user_id l)) (likes s))
      then Inl IntegrityError
      else if fk \<and> (post_id \<notin> set (map p_id (posts s)) \<or> uid \<notin> set (map u_id (users s)))
      then Inl IntegrityError
      else let i = next_id (seq_likes s) (map l_id (likes s))
           in Inr (s\<lparr>likes := likes s @
                 [\<lparr>l_id = i, l_post_id = post_id, l_user_id = uid, l_created_at = created\<rparr>],
                 seq_likes := i\<rparr>))"

text \<open>
  \<open>INSERT INTO media (owner_type, owner_id, url, type, created_at)\<close>: the table has no
  UNIQUE and no FOREIGN KEY clause.
\<close>

definition insert_media :: "string \<Rightarrow> int \<Rightarrow> string \<Rightarrow> string \<Rightarrow> string \<Rightarrow> store \<Rightarrow> store" where
  "insert_media owner_type owner_id url ty created s =
     (let i = next_id (seq_media s) (map m_id (media s))
      in s\<lparr>media := media s @
             [\<lparr>m_id = i, m_owner_type = owner_type, m_owner_id = owner_id, m_url = url,
               m_type = ty, m_created_at = created\<rparr>],
           seq_media := i\<rparr>)"

text \<open>
  \<open>DELETE FROM posts WHERE id = ?\<close>. Comments and likes reference posts(id) ON DELETE CASCADE,
  which SQLite acts on only when the connection enforces foreign keys.
\<close>

definition delete_post_row :: "bool \<Rightarrow> int \<Rightarrow> store \<Rightarrow> store" where
  "delete_post_row fk post_id s =
     s\<lparr>posts := filter (\<lambda>p. p_id p \<noteq> post_id) (posts s),
       comments := (if fk then filter (\<lambda>c. c_post_id c \<noteq> post_id) (comments s) else comments s),
       likes := (if fk then filter (\<lambda>l. l_post_id l \<noteq> post_id) (likes s) else likes s)\<rparr>"

text \<open>\<open>DELETE FROM likes WHERE post_id = ? AND user_id = ?\<close>\<close>

definition delete_like :: "int \<Rightarrow> int \<Rightarrow> store \<Rightarrow> store" where
  "delete_like post_id uid s =
     s\<lparr>likes := filter (\<lambda>l. \<not> (l_post_id l = post_id \<and> l_user_id l = uid)) (likes s)\<rparr>"

text \<open>\<open>UPDATE posts SET text = ?, image_url = ?, updated_at = ? WHERE id = ?\<close>\<close>

definition update_post_row :: "string \<Rightarrow> string option \<Rightarrow> string \<Rightarrow> int \<Rightarrow> store \<Rightarrow> store" where
  "update_post_row txt image_url updated post_id s =
     s\<lparr>posts := map (\<lambda>p. if p_id p = post_id
                          then p\<lparr>p_text := txt, p_image_url := image_url, p_updated_at := Some updated\<rparr>
                          else p) (posts s)\<rparr>"

text \<open>\<open>UPDATE users SET avatar_url = ? WHERE id = ?\<close>\<close>

definition update_user_avatar :: "string \<Rightarrow> int \<Rightarrow> store \<Rightarrow> store" where
  "update_user_avatar url uid s =
     s\<lparr>users := map (\<lambda>u. if u_id u = uid then u\<lparr>u_avatar_url := Some url\<rparr> else u) (users s)\<rparr>"

text \<open>\<open>conn.execute("SELECT * FROM posts WHERE id = ?", (post_id,)).fetchone()\<close>\<close>

definition select_post :: "store \<Rightarrow> int \<Rightarrow> error + post_row option" where
  "select_post s post_id =
     (if fits_int64 post_id then Inr (fetchone (filter (\<lambda>p. p_id p = post_id) (posts s)))
      else Inl OverflowError)"

text \<open>\<open>FROM posts p JOIN users u ON u.id = p.author_id\<close>\<close>

definition posts_join_users :: "store \<Rightarrow> (post_row \<times> user_row) list" where
  "posts_join_users s =
     concat (map (\<lambda>p. map (\<lambda>u. (p, u)) (filter (\<lambda>u. u_id u = p_author_id p) (users s))) (posts s))"

text \<open>\<open>FROM comments c JOIN users u ON u.id = c.author_id WHERE c.post_id = ?\<close>\<close>

definition comments_join_users :: "store \<Rightarrow> int \<Rightarrow> (comment_row \<times> user_row) list" where
  "comments_join_users s post_id =
     concat (map (\<lambda>c. map (\<lambda>u. (c, u)) (filter (\<lambda>u. u_id u = c_author_id c) (users s)))
       (filter (\<lambda>c. c_post_id c = post_id) (comments s)))"

text \<open>\<open>(SELECT COUNT(*) FROM likes l WHERE l.post_id = p.id)\<close> and the same for comments\<close>

definition likes_count :: "store \<Rightarrow> int \<Rightarrow> int" where
  "likes_count s post_id = int (length (filter (\<lambda>l. l_post_id l = post_id) (likes s)))"

definition comments_count :: "store \<Rightarrow> int \<Rightarrow> int" where
  "comments_count s post_id = int (length (filter (\<lambda>c. c_post_id c = post_id) (comments s)))"

text \<open>\<open>SELECT 1 FROM likes WHERE post_id = ? AND user_id = ?\<close> returns a row\<close>

definition like_exists :: "store \<Rightarrow> int \<Rightarrow> int \<Rightarrow> bool" where
  "like_exists s post_id uid =
     (filter (\<lambda>l. l_post_id l = post_id \<and> l_user_id l = uid) (likes s) \<noteq> [])"

text \<open>
  \<open>ORDER BY key ASC\<close> and \<open>ORDER BY key DESC\<close> on a TEXT column: the rows sorted by the
  column under the byte-wise order of strings. Rows with equal keys keep their order.
\<close>

definition order_by_asc :: "('a \<Rightarrow> string) \<Rightarrow> 'a list \<Rightarrow> 'a list" where
  "order_by_asc key rows = sort_key key rows"

definition order_by_desc :: "('a \<Rightarrow> string) \<Rightarrow> 'a list \<Rightarrow> 'a list" where
  "order_by_desc key rows = rev (sort_key key (rev rows))"

text \<open>
  \<open>LIMIT ? OFFSET ?\<close> with both values bound from Python integers: a negative offset
  skips nothing and a negative limit is no limit.
\<close>

definition limit_offset :: "int \<Rightarrow> int \<Rightarrow> 'a list \<Rightarrow> error + 'a list" where
  "limit_offset lim off rows =
     (if fits_int64 lim \<and> fits_int64 off
      then Inr (if lim < 0 then drop (nat off) rows else take (nat lim) (drop (nat off) rows))
      else Inl OverflowError)"

section \<open>Auth helpers\<close>

definition hash_password :: "env \<Rightarrow> string \<Rightarrow> string \<Rightarrow> string" where
  "hash_password e password salt = salt @ ''$'' @ sha256_hexdigest e (salt @ password)"

text \<open>
  \<open>stored.split("$", 1)\<close> has two parts when \<open>stored\<close> contains a dollar sign, the first being
  the text before the first one; otherwise unpacking it raises ValueError.
\<close>

definition verify_password :: "env \<Rightarrow> string \<Rightarrow> string \<Rightarrow> bool" where
  "verify_password e password stored =
     (if CHR ''$'' \<notin> set stored then False
      else hash_password e password (takeWhile (\<lambda>c. c \<noteq> CHR ''$'') stored) = stored)"

text \<open>\<open>rnd\<close> is the value of \<open>secrets.token_hex(16)\<close> and \<open>ts\<close> that of \<open>_now_ts()\<close>.\<close>

definition create_token :: "env \<Rightarrow> int \<Rightarrow> string \<Rightarrow> int \<Rightarrow> string" where
  "create_token e user_id rnd ts =
     sha256_hexdigest e (str_int user_id @ '':'' @ rnd @ '':'' @ str_int ts @ '':'' @ SECRET e)"

text \<open>\<open>SELECT u.* FROM sessions s JOIN users u ON u.id = s.user_id WHERE s.token = ?\<close>\<close>

definition get_user_by_token :: "store \<Rightarrow> string \<Rightarrow> user_row option" where
  "get_user_by_token s tok =
     fetchone (concat (map (\<lambda>r. filter (\<lambda>u. u_id u = s_user_id r) (users s))
                        (filter (\<lambda>r. s_token r = tok) (sessions s))))"

text \<open>\<open>request.headers.get("Authorization", "").replace("Bearer ", "")\<close>\<close>

definition bearer_token :: "request \<Rightarrow> string" where
  "bearer_token req =
     remove_all ''Bearer '' (case authorization req of None \<Rightarrow> [] | Some v \<Rightarrow> v)"

definition require_user :: "store \<Rightarrow> request \<Rightarrow> error + user_row" where
  "require_user s req =
     (let tok = bearer_token req
      in if tok = [] then Inl (HTTPException 401 Auth_required)
         else case get_user_by_token s tok of
                None \<Rightarrow> Inl (HTTPException 401 Invalid_token)
              | Some user \<Rightarrow> Inr user)"

section \<open>File helpers\<close>

text \<open>\<open>dest.write_bytes(contents)\<close>: the file is created or replaced.\<close>

definition write_bytes :: "string \<Rightarrow> string \<Rightarrow> (string \<times> string) list \<Rightarrow> (string \<times> string) list" where
  "write_bytes name bytes files = (name, bytes) # filter (\<lambda>(n, b). n \<noteq> name) files"

text \<open>\<open>hex\<close> is the value of \<open>secrets.token_hex(8)\<close>.\<close>

definition save_upload :: "env \<Rightarrow> UploadFile \<Rightarrow> string \<Rightarrow> string \<Rightarrow> store \<Rightarrow> (error + string) \<times> store" where
  "save_upload e file prefix hex s =
     (case filename file of
        None \<Rightarrow> (Inl (HTTPException 400 No_file), s)
      | Some fname \<Rightarrow>
          if fname = [] then (Inl (HTTPException 400 No_file), s)
          else let ext = str_lower (path_suffix e fname)
               in if ext \<notin> set [''.jpg'', ''.jpeg'', ''.png'', ''.gif'', ''.webp'']
                  then (Inl (HTTPException 400 Bad_image_format), s)
                  else let name = prefix @ ''_'' @ hex @ ext
                       in if contents file = [] then (Inl (HTTPException 400 Empty_file), s)
                          else (Inr (''/uploads/'' @ name),
                                s\<lparr>uploads := write_bytes name (contents file) (uploads s)\<rparr>))"

section \<open>Endpoints\<close>

text \<open>
  A handler that writes takes the store and returns its response together with the store
  it leaves behind. The body of \<open>with _db.connect() as conn\<close> is one transaction: it is
  committed when the block is left normally and rolled back when an exception leaves it,
  so on those paths the tables are the ones the handler started with. Values that the
  source draws from the clock or from \<open>secrets\<close> are arguments: \<open>created_at\<close> and \<open>now\<close> stand
  for results of \<open>_now_iso()\<close>, \<open>salt\<close>, \<open>rnd\<close> and \<open>hex\<close> for results of \<open>secrets.token_hex\<close>,
  \<open>ts\<close> for \<open>_now_ts()\<close>. The parameter \<open>user\<close> is the row that \<open>Depends(_require_user)\<close> supplies.
\<close>

definition register :: "env \<Rightarrow> store \<Rightarrow> RegisterIn \<Rightarrow> string \<Rightarrow> string \<Rightarrow> string \<Rightarrow> int \<Rightarrow> (error + TokenOut) \<times> store" where
  "register e s payload salt created_at rnd ts =
     (let password_hash = hash_password e (ri_password payload) salt
      in case insert_user (ri_name payload) (str_lower (ri_email payload)) password_hash created_at s of
           Inl err \<Rightarrow> (Inl (HTTPException 400 Email_in_use), s)
         | Inr (user_id, s1) \<Rightarrow>
             let tok = create_token e user_id rnd ts
             in case insert_session (foreign_keys e) tok user_id created_at s1 of
                  Inl err \<Rightarrow> (Inl err, s)
                | Inr s2 \<Rightarrow> (Inr \<lparr>token = tok\<rparr>, s2))"

definition login :: "env \<Rightarrow> store \<Rightarrow> LoginIn \<Rightarrow> string \<Rightarrow> int \<Rightarrow> string \<Rightarrow> (error + TokenOut) \<times> store" where
  "login e s payload rnd ts now =
     (case fetchone (filter (\<lambda>u. u_email u = str_lower (li_email payload)) (users s)) of
        None \<Rightarrow> (Inl (HTTPException 400 Bad_credentials), s)
      | Some user \<Rightarrow>
          if \<not> verify_password e (li_password payload) (u_password_hash user)
          then (Inl (HTTPException 400 Bad_credentials), s)
          else let tok = create_token e (u_id user) rnd ts
               in case insert_session (foreign_keys e) tok (u_id user) now s of
                    Inl err \<Rightarrow> (Inl err, s)
                  | Inr s1 \<Rightarrow> (Inr \<lparr>token = tok\<rparr>, s1))"

definition me :: "user_row \<Rightarrow> UserOut" where
  "me user = \<lparr>uo_id = u_id user, uo_name = u_name user, uo_email = u_email user,
              uo_avatar_url = u_avatar_url user, uo_created_at = u_created_at user\<rparr>"

definition update_avatar :: "env \<Rightarrow> store \<Rightarrow> UploadFile \<Rightarrow> user_row \<Rightarrow> string \<Rightarrow> string \<Rightarrow> (error + UserOut) \<times> store" where
  "update_avatar e s file user hex now =
     (case save_upload e file (''user'' @ str_int (u_id user) @ ''_avatar'') hex s of
        (Inl err, s1) \<Rightarrow> (Inl err, s1)
      | (Inr url, s1) \<Rightarrow>
          let s2 = update_user_avatar url (u_id user) s1;
              s3 = insert_media ''user'' (u_id user) url ''image'' now s2
          in case fetchone (filter (\<lambda>u. u_id u = u_id user) (users s3)) of
               None \<Rightarrow> (Inl TypeError, s3)
             | Some updated \<Rightarrow> (Inr (me updated), s3))"

text \<open>The \<open>PostOut(..)\<close> built from a row of the posts-users join and its two counts.\<close>

definition post_out :: "store \<Rightarrow> post_row \<Rightarrow> user_row \<Rightarrow> bool \<Rightarrow> PostOut" where
  "post_out s p u liked =
     \<lparr>po_id = p_id p, po_author_id = p_author_id p, po_author_name = u_name u,
      po_author_avatar_url = u_avatar_url u, po_text = p_text p, po_image_url = p_image_url p,
      po_created_at = p_created_at p, po_updated_at = p_updated_at p,
      po_likes_count = likes_count s (p_id p), po_comments_count = comments_count s (p_id p),
      po_liked_by_me = liked\<rparr>"

definition get_post_out :: "store \<Rightarrow> int \<Rightarrow> error + PostOut" where
  "get_post_out s post_id =
     (if fits_int64 post_id
      then (case fetchone (filter (\<lambda>(p, u). p_id p = post_id) (posts_join_users s)) of
              None \<Rightarrow> Inl (HTTPException 404 Post_not_found)
            | Some (p, u) \<Rightarrow> Inr (post_out s p u False))
      else Inl OverflowError)"

definition create_post :: "env \<Rightarrow> store \<Rightarrow> string \<Rightarrow> UploadFile option \<Rightarrow> user_row \<Rightarrow> string \<Rightarrow> string \<Rightarrow> (error + PostOut) \<times> store" where
  "create_post e s txt image_file user hex created_at =
     (if str_strip txt = [] then (Inl (HTTPException 400 Post_text_required), s)
      else case (case image_file of
                   None \<Rightarrow> (Inr None, s)
                 | Some file \<Rightarrow>
                     (case save_upload e file (''post'' @ str_int (u_id user)) hex s of
                        (Inl err, s1) \<Rightarrow> (Inl err, s1)
                      | (Inr url, s1) \<Rightarrow> (Inr (Some url), s1))) of
             (Inl err, s1) \<Rightarrow> (Inl err, s1)
           | (Inr image_url, s1) \<Rightarrow>
               (case insert_post (foreign_keys e) (u_id user) (str_strip txt) image_url created_at s1 of
                  Inl err \<Rightarrow> (Inl err, s1)
                | Inr (post_id, s2) \<Rightarrow>
                    let s3 = (case image_url of
                                None \<Rightarrow> s2
                              | Some url \<Rightarrow>
                                  if url \<noteq> [] then insert_media ''post'' post_id url ''image'' created_at s2
                                  else s2)
                    in (get_post_out s3 post_id, s3)))"

definition update_post :: "env \<Rightarrow> store \<Rightarrow> int \<Rightarrow> string \<Rightarrow> UploadFile option \<Rightarrow> bool \<Rightarrow> user_row \<Rightarrow> string \<Rightarrow> string \<Rightarrow> string \<Rightarrow> (error + PostOut) \<times> store" where
  "update_post e s post_id txt image_file remove_image user hex now_media now_update =
     (if str_strip txt = [] then (Inl (HTTPException 400 Post_text_required), s)
      else case select_post s post_id of
             Inl err \<Rightarrow> (Inl err, s)
           | Inr None \<Rightarrow> (Inl (HTTPException 404 Post_not_found), s)
           | Inr (Some post) \<Rightarrow>
               if p_author_id post \<noteq> u_id user then (Inl (HTTPException 403 No_access), s)
               else case (case image_file of
                            Some file \<Rightarrow>
                              (case save_upload e file (''post'' @ str_int (u_id user)) hex s of
                                 (Inl err, s1) \<Rightarrow> (Inl err, s1)
                               | (Inr url, s1) \<Rightarrow>
                                   (Inr (Some url), insert_media ''post'' post_id url ''image'' now_media s1))
                          | None \<Rightarrow>
                              if remove_image then (Inr None, s) else (Inr (p_image_url post), s)) of
                      (Inl err, s1) \<Rightarrow> (Inl err, s1)
                    | (Inr image_url, s1) \<Rightarrow>
                        let s2 = update_post_row (str_strip txt) image_url now_update post_id s1
                        in (get_post_out s2 post_id, s2))"

definition delete_post :: "env \<Rightarrow> store \<Rightarrow> int \<Rightarrow> user_row \<Rightarrow> (error + ack) \<times> store" where
  "delete_post e s post_id user =
     (case select_post s post_id of
        Inl err \<Rightarrow> (Inl err, s)
      | Inr None \<Rightarrow> (Inl (HTTPException 404 Post_not_found), s)
      | Inr (Some post) \<Rightarrow>
          if p_author_id post \<noteq> u_id user then (Inl (HTTPException 403 No_access), s)
          else (Inr Status_ok, delete_post_row (foreign_keys e) post_id s))"

text \<open>
  \<open>feed(limit = 20, offset = 0, request = None)\<close>: an argument that the caller leaves out is
  \<open>None\<close> here and takes the default of the signature.
\<close>

definition feed :: "store \<Rightarrow> int option \<Rightarrow> int option \<Rightarrow> request option \<Rightarrow> error + PostOut list" where
  "feed s limit_arg offset_arg req =
     (let lim = max 1 (min (case limit_arg of None \<Rightarrow> 20 | Some l \<Rightarrow> l) 50);
          off = max 0 (case offset_arg of None \<Rightarrow> 0 | Some off \<Rightarrow> off);
          tok = (case req of None \<Rightarrow> [] | Some r \<Rightarrow> bearer_token r);
          user = (if tok \<noteq> [] then get_user_by_token s tok else None)
      in case limit_offset lim off
                (order_by_desc (\<lambda>(p, u). p_created_at p) (posts_join_users s)) of
           Inl err \<Rightarrow> Inl err
         | Inr rows \<Rightarrow>
             Inr (map (\<lambda>(p, u). post_out s p u
                         (case user of
                            Some viewer \<Rightarrow> like_exists s (p_id p) (u_id viewer)
                          | None \<Rightarrow> False)) rows))"

definition comment_out :: "comment_row \<Rightarrow> user_row \<Rightarrow> CommentOut" where
  "comment_out c u =
     \<lparr>co_id = c_id c, co_post_id = c_post_id c, co_author_id = c_author_id c,
      co_author_name = u_name u, co_author_avatar_url = u_avatar_url u,
      co_text = c_text c, co_created_at = c_created_at c\<rparr>"

definition get_post :: "store \<Rightarrow> int \<Rightarrow> request \<Rightarrow> error + PostDetailOut" where
  "get_post s post_id req =
     (case get_post_out s post_id of
        Inl err \<Rightarrow> Inl err
      | Inr post \<Rightarrow>
          let rows = order_by_asc (\<lambda>(c, u). c_created_at c) (comments_join_users s post_id);
              comment_list = map (\<lambda>(c, u). comment_out c u) rows;
              tok = bearer_token req;
              liked_by_me =
                (if tok \<noteq> []
                 then (case get_user_by_token s tok of
                         Some user \<Rightarrow> like_exists s post_id (u_id user)
                       | None \<Rightarrow> False)
                 else False)
          in Inr \<lparr>pd_post = post, pd_comments = comment_list, pd_liked_by_me = liked_by_me\<rparr>)"

definition add_comment :: "env \<Rightarrow> store \<Rightarrow> int \<Rightarrow> CommentIn \<Rightarrow> user_row \<Rightarrow> string \<Rightarrow> (error + CommentOut) \<times> store" where
  "add_comment e s post_id payload user created_at =
     (if str_strip (ci_text payload) = [] then (Inl (HTTPException 400 Comment_text_required), s)
      else case select_post s post_id of
             Inl err \<Rightarrow> (Inl err, s)
           | Inr None \<Rightarrow> (Inl (HTTPException 404 Post_not_found), s)
           | Inr (Some post) \<Rightarrow>
               (case insert_comment (foreign_keys e) post_id (u_id user)
                       (str_strip (ci_text payload)) created_at s of
                  Inl err \<Rightarrow> (Inl err, s)
                | Inr (comment_id, s1) \<Rightarrow>
                    (Inr \<lparr>co_id = comment_id, co_post_id = post_id, co_author_id = u_id user,
                          co_author_name = u_name user, co_author_avatar_url = u_avatar_url user,
                          co_text = str_strip (ci_text payload), co_created_at = created_at\<rparr>, s1)))"

definition like_post :: "env \<Rightarrow> store \<Rightarrow> int \<Rightarrow> user_row \<Rightarrow> string \<Rightarrow> (error + ack) \<times> store" where
  "like_post e s post_id user now =
     (case select_post s post_id of
        Inl err \<Rightarrow> (Inl err, s)
      | Inr None \<Rightarrow> (Inl (HTTPException 404 Post_not_found), s)
      | Inr (Some post) \<Rightarrow>
          (case insert_like (foreign_keys e) post_id (u_id user) now s of
             Inl err \<Rightarrow> (Inl (HTTPException 400 Like_exists), s)
           | Inr s1 \<Rightarrow> (Inr Status_ok, s1)))"

definition unlike_post :: "store \<Rightarrow> int \<Rightarrow> user_row \<Rightarrow> (error + ack) \<times> store" where
  "unlike_post s post_id user =
     (if fits_int64 post_id then (Inr Status_ok, delete_like post_id (u_id user) s)
      else (Inl OverflowError, s))"

text \<open>The database that \<open>init_db\<close> creates, with an empty upload directory.\<close>

definition init_db :: store where
  "init_db = \<lparr>users = [], posts = [], comments = [], likes = [], media = [], sessions = [],
              seq_users = 0, seq_posts = 0, seq_comments = 0, seq_likes = 0, seq_media = 0,
              uploads = []\<rparr>"

section \<open>Consistent stores\<close>

text \<open>
  What the joins of the read handlers rely on: user ids and post ids are unique, and the
  author of every post and of every comment is a user of the store.
\<close>

definition consistent :: "store \<Rightarrow> bool" where
  "consistent s \<longleftrightarrow>
     distinct (map u_id (users s)) \<and> distinct (map p_id (posts s)) \<and>
     (\<forall>p \<in> set (posts s). p_author_id p \<in> set (map u_id (users s))) \<and>
     (\<forall>c \<in> set (comments s). c_author_id c \<in> set (map u_id (users s)))"

section \<open>The API as a transition system\<close>

text \<open>
  One constructor per endpoint that writes, with the arguments of the request and the values
  the handler draws from the clock and from \<open>secrets\<close>. \<open>serve\<close> is the store after a call:
  an endpoint declared with \<open>Depends(_require_user)\<close> runs its handler only when the request
  authenticates, with the user row found. The stores the service can be in are those
  reachable from the empty database of \<open>init_db\<close>. The endpoints that only read
  (\<open>me\<close>, \<open>feed\<close>, \<open>get_post\<close>) do not change the store.
\<close>

datatype api_call =
    Register RegisterIn string string string int
  | Login LoginIn string int string
  | Update_avatar request UploadFile string string
  | Create_post request string "UploadFile option" string string
  | Update_post request int string "UploadFile option" bool string string string
  | Delete_post request int
  | Add_comment request int CommentIn string
  | Like_post request int string
  | Unlike_post request int

definition depends_user :: "store \<Rightarrow> request \<Rightarrow> (user_row \<Rightarrow> store) \<Rightarrow> store" where
  "depends_user s req handler =
     (case require_user s req of Inl err \<Rightarrow> s | Inr user \<Rightarrow> handler user)"

fun serve :: "env \<Rightarrow> store \<Rightarrow> api_call \<Rightarrow> store" where
  "serve e s (Register payload salt created_at rnd ts) =
     snd (register e s payload salt created_at rnd ts)"
| "serve e s (Login payload rnd ts now) = snd (login e s payload rnd ts now)"
| "serve e s (Update_avatar req upload hex now) =
     depends_user s req (\<lambda>user. snd (update_avatar e s upload user hex now))"
| "serve e s (Create_post req txt image_file hex created_at) =
     depends_user s req (\<lambda>user. snd (create_post e s txt image_file user hex created_at))"
| "serve e s (Update_post req post_id txt image_file remove_image hex now_media now_update) =
     depends_user s req (\<lambda>user.
       snd (update_post e s post_id txt image_file remove_image user hex now_media now_update))"
| "serve e s (Delete_post req post_id) =
     depends_user s req (\<lambda>user. snd (delete_post e s post_id user))"
| "serve e s (Add_comment req post_id payload created_at) =
     depends_user s req (\<lambda>user. snd (add_comment e s post_id payload user created_at))"
| "serve e s (Like_post req post_id now) =
     depends_user s req (\<lambda>user. snd (like_post e s post_id user now))"
| "serve e s (Unlike_post req post_id) =
     depends_user s req (\<lambda>user. snd (unlike_post s post_id user))"

inductive reachable :: "env \<Rightarrow> store \<Rightarrow> bool" for e :: env where
  start: "reachable e init_db"
| call: "reachable e s \<Longrightarrow> reachable e (serve e s c)"

section \<open>The clamping of the feed arguments, as the specification words it\<close>

definition spec_limit :: "int option \<Rightarrow> int" where
  "spec_limit limit_arg =
     (case limit_arg of
        None \<Rightarrow> 20
      | Some l \<Rightarrow> if l < 1 then 1 else if 50 < l then 50 else l)"

definition spec_offset :: "int option \<Rightarrow> int" where
  "spec_offset offset_arg =
     (case offset_arg of None \<Rightarrow> 0 | Some k \<Rightarrow> if k < 0 then 0 else k)"

section \<open>Example environment and stores\<close>

text \<open>
  The examples run the handlers with string reversal in the place of SHA-256.
\<close>

text \<open>
  \<open>pathlib.PurePosixPath(name).suffix\<close>: of the last component of the path, the text from
  its last dot on, when that dot is neither its first nor its last character.
\<close>

definition last_component :: "string \<Rightarrow> string" where
  "last_component n =
     rev (takeWhile (\<lambda>c. c \<noteq> CHR ''/'') (dropWhile (\<lambda>c. c = CHR ''/'') (rev n)))"

definition posix_suffix :: "string \<Rightarrow> string" where
  "posix_suffix n =
     (let name = last_component n;
          ext = rev (takeWhile (\<lambda>c. c \<noteq> CHR ''.'') (rev name))
      in if CHR ''.'' \<in> set name \<and> ext \<noteq> [] \<and> length ext + 1 < length name
         then CHR ''.'' # ext else [])"

definition example_env :: "bool \<Rightarrow> env" where
  "example_env fk = \<lparr>sha256_hexdigest = rev, SECRET = ''dev-secret-change-me'',
                      path_suffix = posix_suffix, foreign_keys = fk\<rparr>"

definition alice_in :: RegisterIn where
  "alice_in = \<lparr>ri_name = ''Alice'', ri_email = ''Alice@Example.com'', ri_password = ''secret1''\<rparr>"

definition bob_in :: RegisterIn where
  "bob_in = \<lparr>ri_name = ''Bob'', ri_email = ''bob@example.com'', ri_password = ''hunter22''\<rparr>"

definition alice :: user_row where
  "alice = \<lparr>u_id = 1, u_name = ''Alice'', u_email = ''alice@example.com'',
            u_password_hash = ''a1$1terces1a'', u_avatar_url = None,
            u_created_at = ''2024-05-01T10:00:00.120000Z''\<rparr>"

definition bob :: user_row where
  "bob = \<lparr>u_id = 2, u_name = ''Bob'', u_email = ''bob@example.com'',
          u_password_hash = ''b2$22retnuh2b'', u_avatar_url = None,
          u_created_at = ''2024-05-01T10:05:00.250000Z''\<rparr>"

definition photo :: UploadFile where
  "photo = \<lparr>filename = Some ''cat.PNG'', contents = ''png-bytes''\<rparr>"

definition st_alice :: "bool \<Rightarrow> store" where
  "st_alice fk = snd (register (example_env fk) init_db alice_in ''a1''
                       ''2024-05-01T10:00:00.120000Z'' ''r1'' 1714557600)"

definition st_bob :: "bool \<Rightarrow> store" where
  "st_bob fk = snd (register (example_env fk) (st_alice fk) bob_in ''b2''
                     ''2024-05-01T10:05:00.250000Z'' ''r2'' 1714557900)"

definition st_post :: "bool \<Rightarrow> store" where
  "st_post fk = snd (create_post (example_env fk) (st_bob fk) ''hello'' (Some photo) alice
                      ''c3'' ''2024-05-01T10:10:00.500000Z'')"

definition st_comment :: "bool \<Rightarrow> store" where
  "st_comment fk = snd (add_comment (example_env fk) (st_post fk) 1 \<lparr>ci_text = '' nice ''\<rparr> bob
                         ''2024-05-01T10:11:00.750000Z'')"

definition st_like :: "bool \<Rightarrow> store" where
  "st_like fk = snd (like_post (example_env fk) (st_comment fk) 1 bob
                      ''2024-05-01T10:12:00.125000Z'')"


definition hello_post :: post_row where
  "hello_post = \<lparr>p_id = 1, p_author_id = 1, p_text = ''hello'',
                 p_image_url = Some ''/uploads/post1_c3.png'',
                 p_created_at = ''2024-05-01T10:10:00.500000Z'', p_updated_at = None\<rparr>"

definition cat_media :: media_row where
  "cat_media = \<lparr>m_id = 1, m_owner_type = ''post'', m_owner_id = 1,
                m_url = ''/uploads/post1_c3.png'', m_type = ''image'',
                m_created_at = ''2024-05-01T10:10:00.500000Z''\<rparr>"

definition alice_token :: string where
  "alice_token = ''em-egnahc-terces-ved:0067554171:1r:1''"

definition bob_token :: string where
  "bob_token = ''em-egnahc-terces-ved:0097554171:2r:2''"

definition bearer :: "string \<Rightarrow> request" where
  "bearer tok = \<lparr>authorization = Some (''Bearer '' @ tok)\<rparr>"

definition st_second :: "bool \<Rightarrow> store" where
  "st_second fk = snd (create_post (example_env fk) (st_like fk) ''second'' None bob
                        ''e5'' ''2024-05-01T10:13:00.333000Z'')"

definition dog :: UploadFile where
  "dog = \<lparr>filename = Some ''dog.JPeG'', contents = ''jpeg-bytes''\<rparr>"

definition edited_out :: "string option \<Rightarrow> PostOut" where
  "edited_out image_url =
     \<lparr>po_id = 1, po_author_id = 1, po_author_name = ''Alice'', po_author_avatar_url = None,
      po_text = ''edited'', po_image_url = image_url,
      po_created_at = ''2024-05-01T10:10:00.500000Z'',
      po_updated_at = Some ''2024-05-02T08:00:00.200000Z'',
      po_likes_count = 1, po_comments_count = 1, po_liked_by_me = False\<rparr>"

definition st_edited :: "UploadFile option \<Rightarrow> bool \<Rightarrow> store" where
  "st_edited image_file remove_image =
     snd (update_post (example_env False) (st_like False) 1 '' edited '' image_file remove_image
            alice ''d4'' ''2024-05-02T08:00:00.100000Z'' ''2024-05-02T08:00:00.200000Z'')"

definition st_reply :: "bool \<Rightarrow> store" where
  "st_reply fk = snd (add_comment (example_env fk) (st_second fk) 1 \<lparr>ci_text = ''thanks''\<rparr> alice
                       ''2024-05-01T10:14:00.010000Z'')"

definition hello_detail :: "bool \<Rightarrow> PostDetailOut" where
  "hello_detail liked =
     \<lparr>pd_post =
        \<lparr>po_id = 1, po_author_id = 1, po_author_name = ''Alice'', po_author_avatar_url = None,
         po_text = ''hello'', po_image_url = Some ''/uploads/post1_c3.png'',
         po_created_at = ''2024-05-01T10:10:00.500000Z'', po_updated_at = None,
         po_likes_count = 1, po_comments_count = 2, po_liked_by_me = False\<rparr>,
      pd_comments =
        [\<lparr>co_id = 1, co_post_id = 1, co_author_id = 2, co_author_name = ''Bob'',
          co_author_avatar_url = None, co_text = ''nice'',
          co_created_at = ''2024-05-01T10:11:00.750000Z''\<rparr>,
         \<lparr>co_id = 2, co_post_id = 1, co_author_id = 1, co_author_name = ''Alice'',
          co_author_avatar_url = None, co_text = ''thanks'',
          co_created_at = ''2024-05-01T10:14:00.010000Z''\<rparr>],
      pd_liked_by_me = liked\<rparr>"

definition nice_comment :: comment_row where
  "nice_comment = \<lparr>c_id = 1, c_post_id = 1, c_author_id = 2, c_text = ''nice'',
                   c_created_at = ''2024-05-01T10:11:00.750000Z''\<rparr>"

definition bob_like :: like_row where
  "bob_like = \<lparr>l_id = 1, l_post_id = 1, l_user_id = 2,
               l_created_at = ''2024-05-01T10:12:00.125000Z''\<rparr>"

text \<open>
  Two readings of the clock half a second apart, the first on the full second, and the
  stores after two posts, and after two comments on Alice's post, made at these readings.
\<close>

definition noon :: utc_time where
  "noon = \<lparr>t_year = 2024, t_month = 5, t_day = 1, t_hour = 12, t_minute = 0, t_second = 0,
           t_microsecond = 0\<rparr>"

definition noon_half :: utc_time where
  "noon_half = \<lparr>t_year = 2024, t_month = 5, t_day = 1, t_hour = 12, t_minute = 0, t_second = 0,
                t_microsecond = 500000\<rparr>"

definition st_tick :: store where
  "st_tick = snd (create_post (example_env False) (st_bob False) ''first'' None alice ''c3''
                   (now_iso noon))"

definition st_tock :: store where
  "st_tock = snd (create_post (example_env False) st_tick ''second'' None bob ''e5''
                   (now_iso noon_half))"

definition first_out :: PostOut where
  "first_out =
     \<lparr>po_id = 1, po_author_id = 1, po_author_name = ''Alice'', po_author_avatar_url = None,
      po_text = ''first'', po_image_url = None, po_created_at = ''2024-05-01T12:00:00Z'',
      po_updated_at = None, po_likes_count = 0, po_comments_count = 0, po_liked_by_me = False\<rparr>"

definition second_out :: PostOut where
  "second_out =
     \<lparr>po_id = 2, po_author_id = 2, po_author_name = ''Bob'', po_author_avatar_url = None,
      po_text = ''second'', po_image_url = None,
      po_created_at = ''2024-05-01T12:00:00.500000Z'',
      po_updated_at = None, po_likes_count = 0, po_comments_count = 0, po_liked_by_me = False\<rparr>"

definition st_ask :: store where
  "st_ask = snd (add_comment (example_env False) (st_post False) 1 \<lparr>ci_text = ''first''\<rparr> bob
                  (now_iso noon))"

definition st_answer :: store where
  "st_answer = snd (add_comment (example_env False) st_ask 1 \<lparr>ci_text = ''second''\<rparr> alice
                     (now_iso noon_half))"

definition answer_detail :: PostDetailOut where
  "answer_detail =
     \<lparr>pd_post =
        \<lparr>po_id = 1, po_author_id = 1, po_author_name = ''Alice'', po_author_avatar_url = None,
         po_text = ''hello'', po_image_url = Some ''/uploads/post1_c3.png'',
         po_created_at = ''2024-05-01T10:10:00.500000Z'', po_updated_at = None,
         po_likes_count = 0, po_comments_count = 2, po_liked_by_me = False\<rparr>,
      pd_comments =
        [\<lparr>co_id = 2, co_post_id = 1, co_author_id = 1, co_author_name = ''Alice'',
          co_author_avatar_url = None, co_text = ''second'',
          co_created_at = ''2024-05-01T12:00:00.500000Z''\<rparr>,
         \<lparr>co_id = 1, co_post_id = 1, co_author_id = 2, co_author_name = ''Bob'',
          co_author_avatar_url = None, co_text = ''first'',
          co_created_at = ''2024-05-01T12:00:00Z''\<rparr>],
      pd_liked_by_me = False\<rparr>"

section \<open>Properties\<close>

lemma fold_max_ge: "a \<le> fold max ids (a::int)"
proof (induction ids arbitrary: a)
  case Nil then show ?case by simp
next
  case (Cons y ys)
  have "a \<le> max y a" by simp
  also have "max y a \<le> fold max ys (max y a)" by (rule Cons.IH)
  finally show ?case by simp
qed

lemma fold_max_mem: "x \<in> set ids \<Longrightarrow> x \<le> fold max ids (a::int)"
proof (induction ids arbitrary: a)
  case Nil then show ?case by simp
next
  case (Cons y ys)
  show ?case
  proof (cases "x = y")
    case True
    have "y \<le> max y a" by simp
    also have "max y a \<le> fold max ys (max y a)" by (rule fold_max_ge)
    finally show ?thesis using True by simp
  next
    case False
    with Cons show ?thesis by simp
  qed
qed

lemma next_id_fresh: "next_id seq ids \<notin> set ids"
  using fold_max_mem[of "next_id seq ids" ids seq] by (auto simp: next_id_def)

lemma fetchone_None [simp]: "fetchone rows = None \<longleftrightarrow> rows = []"
  by (cases rows) (simp_all add: fetchone_def)

lemma fetchone_Some_mem: "fetchone rows = Some r \<Longrightarrow> r \<in> set rows"
  by (cases rows) (simp_all add: fetchone_def)

lemma fetchone_Nil [simp]: "fetchone [] = None"
  by (simp add: fetchone_def)

lemma fetchone_Cons [simp]: "fetchone (r # rows) = Some r"
  by (simp add: fetchone_def)

lemma get_user_by_token_mem:
  "get_user_by_token s tok = Some u \<Longrightarrow> u \<in> set (users s)"
  by (auto simp: get_user_by_token_def dest!: fetchone_Some_mem)

lemma require_user_mem: "require_user s req = Inr u \<Longrightarrow> u \<in> set (users s)"
  by (auto simp: require_user_def Let_def split: if_splits option.splits dest: get_user_by_token_mem)

lemma select_post_overflow: "\<not> fits_int64 post_id \<Longrightarrow> select_post s post_id = Inl OverflowError"
  by (simp add: select_post_def)

lemma select_post_fits: "select_post s post_id = Inr row \<Longrightarrow> fits_int64 post_id"
  by (cases "fits_int64 post_id") (simp_all add: select_post_def)

lemma select_post_None:
  "fits_int64 post_id \<Longrightarrow> post_id \<notin> p_id ` set (posts s) \<Longrightarrow> select_post s post_id = Inr None"
proof -
  assume f: "fits_int64 post_id" and "post_id \<notin> p_id ` set (posts s)"
  then have "filter (\<lambda>p. p_id p = post_id) (posts s) = []"
    by (force simp: filter_empty_conv)
  with f show ?thesis by (simp add: select_post_def)
qed

lemma select_post_Some:
  assumes "select_post s post_id = Inr (Some p)"
  shows "p \<in> set (posts s) \<and> p_id p = post_id"
proof -
  from assms have "fetchone (filter (\<lambda>p. p_id p = post_id) (posts s)) = Some p"
    by (cases "fits_int64 post_id") (simp_all add: select_post_def)
  from fetchone_Some_mem[OF this] show ?thesis by simp
qed

text \<open>
  Claim C10. In \<open>update_post\<close> the check of the text comes before the lookup of the post and
  before the ownership check: when the text is empty after stripping, the call raises the
  400 error "post text is required" and leaves the store as it was, for every post id
  (whether or not such a post exists) and every calling user (author or not).
\<close>
theorem update_post_blank_text:
  "str_strip txt = [] \<Longrightarrow>
   update_post e s post_id txt image_file remove_image user hex now_media now_update
     = (Inl (HTTPException 400 Post_text_required), s)"
  by (simp add: update_post_def)

theorem update_post_blank_text_witness:
  "str_strip ''  '' = []
 \<and> select_post (st_like False) 42 = Inr None
 \<and> update_post (example_env False) (st_like False) 42 ''  '' None False bob ''d4''
      ''2024-05-02T08:00:00.100000Z'' ''2024-05-02T08:00:00.200000Z''
     = (Inl (HTTPException 400 Post_text_required), st_like False)
 \<and> select_post (st_like False) 1 = Inr (Some hello_post)
 \<and> p_author_id hello_post \<noteq> u_id bob
 \<and> update_post (example_env False) (st_like False) 1 ''  '' None False bob ''d4''
      ''2024-05-02T08:00:00.100000Z'' ''2024-05-02T08:00:00.200000Z''
     = (Inl (HTTPException 400 Post_text_required), st_like False)"
proof -
  have blank: "str_strip ''  '' = []" by code_simp
  have absent: "select_post (st_like False) 42 = Inr None" by code_simp
  have present: "select_post (st_like False) 1 = Inr (Some hello_post)" by code_simp
  have other: "p_author_id hello_post \<noteq> u_id bob" by code_simp
  show ?thesis
    using blank absent present other
      update_post_blank_text[OF blank, of "example_env False" "st_like False" 42 None False bob
        "''d4''" "''2024-05-02T08:00:00.100000Z''" "''2024-05-02T08:00:00.200000Z''"]
      update_post_blank_text[OF blank, of "example_env False" "st_like False" 1 None False bob
        "''d4''" "''2024-05-02T08:00:00.100000Z''" "''2024-05-02T08:00:00.200000Z''"]
    by (intro conjI) assumption+
qed

text \<open>
  Claim C5. If the store holds a user whose email is the lower-cased form of some address,
  then \<open>register\<close> with any name, any password and an email with the same lower-cased form
  raises the 400 error "email is already in use" and leaves the store unchanged, so that no
  user row is created.
\<close>
theorem register_duplicate_email:
  assumes "u \<in> set (users s)" and "u_email u = str_lower em"
    and "str_lower (ri_email payload) = str_lower em"
  shows "register e s payload salt created_at rnd ts = (Inl (HTTPException 400 Email_in_use), s)"
proof -
  have "str_lower (ri_email payload) \<in> set (map u_email (users s))"
    using assms by force
  then show ?thesis
    by (simp add: register_def insert_user_def)
qed

theorem register_duplicate_email_witness:
  "alice \<in> set (users (st_alice False))
 \<and> u_email alice = str_lower ''ALICE@example.com''
 \<and> str_lower (ri_email \<lparr>ri_name = ''Mallory'', ri_email = ''alice@EXAMPLE.com'',
                          ri_password = ''letmein1''\<rparr>) = str_lower ''ALICE@example.com''
 \<and> register (example_env False) (st_alice False)
      \<lparr>ri_name = ''Mallory'', ri_email = ''alice@EXAMPLE.com'', ri_password = ''letmein1''\<rparr>
      ''f6'' ''2024-05-02T09:00:00.400000Z'' ''r9'' 1714640400
     = (Inl (HTTPException 400 Email_in_use), st_alice False)"
proof -
  have a: "alice \<in> set (users (st_alice False))" by code_simp
  have b: "u_email alice = str_lower ''ALICE@example.com''" by code_simp
  have c: "str_lower (ri_email \<lparr>ri_name = ''Mallory'', ri_email = ''alice@EXAMPLE.com'',
                          ri_password = ''letmein1''\<rparr>) = str_lower ''ALICE@example.com''"
    by code_simp
  show ?thesis
    using a b c register_duplicate_email[OF a b c, of "example_env False" "''f6''"
        "''2024-05-02T09:00:00.400000Z''" "''r9''" 1714640400]
    by (intro conjI) assumption+
qed

text \<open>
  Claim C8. A login with an email that matches no user and a login with the email of an
  existing user but a password that does not verify raise the same exception: status 400
  with the one text "wrong email or password". Both leave the store unchanged.
\<close>
theorem login_generic_error:
  assumes no_user: "str_lower (li_email p1) \<notin> u_email ` set (users s1)"
    and known: "str_lower (li_email p2) \<in> u_email ` set (users s2)"
    and wrong: "\<forall>u \<in> set (users s2). u_email u = str_lower (li_email p2)
                  \<longrightarrow> \<not> verify_password e (li_password p2) (u_password_hash u)"
  shows "login e s1 p1 rnd1 ts1 now1 = (Inl (HTTPException 400 Bad_credentials), s1)
       \<and> login e s2 p2 rnd2 ts2 now2 = (Inl (HTTPException 400 Bad_credentials), s2)"
proof
  have "filter (\<lambda>u. u_email u = str_lower (li_email p1)) (users s1) = []"
    using no_user by (force simp: filter_empty_conv)
  then show "login e s1 p1 rnd1 ts1 now1 = (Inl (HTTPException 400 Bad_credentials), s1)"
    by (simp add: login_def)
next
  show "login e s2 p2 rnd2 ts2 now2 = (Inl (HTTPException 400 Bad_credentials), s2)"
  proof (cases "fetchone (filter (\<lambda>u. u_email u = str_lower (li_email p2)) (users s2))")
    case None
    then show ?thesis by (simp add: login_def)
  next
    case (Some user)
    then have "user \<in> set (users s2)" "u_email user = str_lower (li_email p2)"
      by (auto dest!: fetchone_Some_mem)
    with wrong have "\<not> verify_password e (li_password p2) (u_password_hash user)" by blast
    with Some show ?thesis by (simp add: login_def)
  qed
qed

theorem login_generic_error_witness:
  "str_lower (li_email \<lparr>li_email = ''carol@example.com'', li_password = ''secret1''\<rparr>)
     \<notin> u_email ` set (users (st_bob False))
 \<and> str_lower (li_email \<lparr>li_email = ''Alice@Example.com'', li_password = ''secret2''\<rparr>)
     \<in> u_email ` set (users (st_bob False))
 \<and> \<not> verify_password (example_env False) ''secret2'' (u_password_hash alice)
 \<and> login (example_env False) (st_bob False)
      \<lparr>li_email = ''carol@example.com'', li_password = ''secret1''\<rparr> ''r7'' 1714640500
      ''2024-05-02T09:01:40.000100Z''
     = (Inl (HTTPException 400 Bad_credentials), st_bob False)
 \<and> login (example_env False) (st_bob False)
      \<lparr>li_email = ''Alice@Example.com'', li_password = ''secret2''\<rparr> ''r8'' 1714640600
      ''2024-05-02T09:03:20.000200Z''
     = (Inl (HTTPException 400 Bad_credentials), st_bob False)"
proof -
  have a: "str_lower (li_email \<lparr>li_email = ''carol@example.com'', li_password = ''secret1''\<rparr>)
     \<notin> u_email ` set (users (st_bob False))" by code_simp
  have b: "str_lower (li_email \<lparr>li_email = ''Alice@Example.com'', li_password = ''secret2''\<rparr>)
     \<in> u_email ` set (users (st_bob False))" by code_simp
  have c: "\<forall>u \<in> set (users (st_bob False)).
       u_email u = str_lower (li_email \<lparr>li_email = ''Alice@Example.com'', li_password = ''secret2''\<rparr>)
       \<longrightarrow> \<not> verify_password (example_env False)
             (li_password \<lparr>li_email = ''Alice@Example.com'', li_password = ''secret2''\<rparr>)
             (u_password_hash u)" by code_simp
  have d: "\<not> verify_password (example_env False) ''secret2'' (u_password_hash alice)"
    by code_simp
  from login_generic_error[OF a b c, of "''r7''" 1714640500 "''2024-05-02T09:01:40.000100Z''"
      "''r8''" 1714640600 "''2024-05-02T09:03:20.000200Z''"]
  show ?thesis using a b d by (intro conjI) (assumption | erule conjunct1 | erule conjunct2)+
qed

lemma filter_key_absent: "x \<notin> set (map f xs) \<Longrightarrow> filter (\<lambda>r. f r = x) xs = []"
  by (force simp: filter_empty_conv)



lemma like_exists_iff:
  "like_exists s post_id uid \<longleftrightarrow>
     (post_id, uid) \<in> set (map (\<lambda>l. (l_post_id l, l_user_id l)) (likes s))"
  by (force simp: like_exists_def filter_empty_conv)

lemma select_post_exists:
  "p \<in> set (posts s) \<Longrightarrow> fits_int64 (p_id p) \<Longrightarrow> \<exists>q. select_post s (p_id p) = Inr (Some q)"
proof -
  assume "p \<in> set (posts s)" and f: "fits_int64 (p_id p)"
  then have "filter (\<lambda>q. p_id q = p_id p) (posts s) \<noteq> []"
    by (auto simp: filter_empty_conv)
  then show ?thesis
    using f by (cases "filter (\<lambda>q. p_id q = p_id p) (posts s)") (simp_all add: select_post_def)
qed

text \<open>
  Claim C3. For an authenticated user and an existing post that the user has not liked yet,
  the first \<open>like_post\<close> succeeds and a second one raises the 400 error "like already set",
  with the store unchanged. \<open>unlike_post\<close> succeeds in every store, whether or not the like
  row is there; after it the row is absent, and a second \<open>unlike_post\<close> succeeds as well.
  The id of the post is that of a stored row, an INTEGER of SQLite, so it fits 64 bits.
\<close>
theorem like_twice_unlike_twice:
  assumes auth: "require_user s req = Inr user"
    and post: "p \<in> set (posts s)"
    and stored: "fits_int64 (p_id p)"
    and first: "\<not> like_exists s (p_id p) (u_id user)"
  shows "(\<exists>s1. like_post e s (p_id p) user now1 = (Inr Status_ok, s1)
             \<and> like_exists s1 (p_id p) (u_id user)
             \<and> like_post e s1 (p_id p) user now2 = (Inl (HTTPException 400 Like_exists), s1))
       \<and> (\<exists>s2 s3. unlike_post t (p_id p) user = (Inr Status_ok, s2)
             \<and> \<not> like_exists s2 (p_id p) (u_id user)
             \<and> unlike_post s2 (p_id p) user = (Inr Status_ok, s3))"
proof -
  from post obtain q where q: "select_post s (p_id p) = Inr (Some q)"
    using select_post_exists stored by blast
  have u: "u_id user \<in> set (map u_id (users s))"
    using require_user_mem[OF auth] by simp
  have pp: "p_id p \<in> set (map p_id (posts s))"
    using post by simp
  have nl: "(p_id p, u_id user) \<notin> set (map (\<lambda>l. (l_post_id l, l_user_id l)) (likes s))"
    using first by (simp add: like_exists_iff)
  define s1 where "s1 = s\<lparr>likes := likes s @
       [\<lparr>l_id = next_id (seq_likes s) (map l_id (likes s)), l_post_id = p_id p,
         l_user_id = u_id user, l_created_at = now1\<rparr>],
       seq_likes := next_id (seq_likes s) (map l_id (likes s))\<rparr>"
  have ins: "insert_like (foreign_keys e) (p_id p) (u_id user) now1 s = Inr s1"
    using u pp nl unfolding insert_like_def s1_def Let_def by simp
  have a: "like_post e s (p_id p) user now1 = (Inr Status_ok, s1)"
    by (simp add: like_post_def q ins)
  have b: "like_exists s1 (p_id p) (u_id user)"
    by (simp add: like_exists_iff s1_def)
  have q1: "select_post s1 (p_id p) = Inr (Some q)"
    using q stored by (simp add: select_post_def s1_def)
  have "insert_like (foreign_keys e) (p_id p) (u_id user) now2 s1 = Inl IntegrityError"
    using b by (simp add: insert_like_def like_exists_iff)
  then have c: "like_post e s1 (p_id p) user now2 = (Inl (HTTPException 400 Like_exists), s1)"
    by (simp add: like_post_def q1)
  from a b c have likes: "\<exists>s1. like_post e s (p_id p) user now1 = (Inr Status_ok, s1)
             \<and> like_exists s1 (p_id p) (u_id user)
             \<and> like_post e s1 (p_id p) user now2 = (Inl (HTTPException 400 Like_exists), s1)"
    by blast
  have unlikes: "\<exists>s2 s3. unlike_post t (p_id p) user = (Inr Status_ok, s2)
             \<and> \<not> like_exists s2 (p_id p) (u_id user)
             \<and> unlike_post s2 (p_id p) user = (Inr Status_ok, s3)"
    using stored by (simp add: unlike_post_def delete_like_def like_exists_def filter_empty_conv)
  from likes unlikes show ?thesis by (rule conjI)
qed

text \<open>
  Bob, authenticated by his token, likes Alice's post twice and unlikes it twice.
\<close>

theorem like_twice_unlike_twice_witness:
  "require_user (st_comment False) (bearer bob_token) = Inr bob
 \<and> hello_post \<in> set (posts (st_comment False))
 \<and> fits_int64 (p_id hello_post)
 \<and> \<not> like_exists (st_comment False) (p_id hello_post) (u_id bob)
 \<and> (\<exists>s1. like_post (example_env False) (st_comment False) (p_id hello_post) bob
             ''2024-05-01T10:12:00.125000Z'' = (Inr Status_ok, s1)
        \<and> like_exists s1 (p_id hello_post) (u_id bob)
        \<and> like_post (example_env False) s1 (p_id hello_post) bob
             ''2024-05-01T10:12:01.400000Z'' = (Inl (HTTPException 400 Like_exists), s1))
 \<and> (\<exists>s2 s3. unlike_post (st_like False) (p_id hello_post) bob = (Inr Status_ok, s2)
        \<and> \<not> like_exists s2 (p_id hello_post) (u_id bob)
        \<and> unlike_post s2 (p_id hello_post) bob = (Inr Status_ok, s3))
 \<and> like_exists (st_like False) (p_id hello_post) (u_id bob)"
proof -
  have auth: "require_user (st_comment False) (bearer bob_token) = Inr bob" by code_simp
  have post: "hello_post \<in> set (posts (st_comment False))" by code_simp
  have stored: "fits_int64 (p_id hello_post)" by code_simp
  have first: "\<not> like_exists (st_comment False) (p_id hello_post) (u_id bob)" by code_simp
  have liked: "like_exists (st_like False) (p_id hello_post) (u_id bob)" by code_simp
  from like_twice_unlike_twice[OF auth post stored first, of "example_env False"
      "''2024-05-01T10:12:00.125000Z''" "''2024-05-01T10:12:01.400000Z''" "st_like False"]
  show ?thesis using auth post stored first liked
    by (intro conjI) (assumption | erule conjunct1 | erule conjunct2)+
qed

text \<open>
  \<open>delete_post\<close> by the author of the post: the post row goes and the media table is not
  touched. What becomes of the comments and likes of the post depends on the connection:
  with foreign keys enforced they are removed, otherwise both tables stay as they are.
\<close>

lemma delete_post_by_author:
  assumes found: "select_post s post_id = Inr (Some p)"
    and author: "p_author_id p = u_id user"
  shows "\<exists>s'. delete_post e s post_id user = (Inr Status_ok, s')
            \<and> post_id \<notin> p_id ` set (posts s')
            \<and> media s' = media s
            \<and> (foreign_keys e \<longrightarrow>
                  post_id \<notin> c_post_id ` set (comments s') \<and> post_id \<notin> l_post_id ` set (likes s'))"
proof -
  have "delete_post e s post_id user = (Inr Status_ok, delete_post_row (foreign_keys e) post_id s)"
    using found author by (simp add: delete_post_def)
  moreover have "post_id \<notin> p_id ` set (posts (delete_post_row (foreign_keys e) post_id s))"
    by (auto simp: delete_post_row_def)
  moreover have "media (delete_post_row (foreign_keys e) post_id s) = media s"
    by (simp add: delete_post_row_def)
  moreover have "foreign_keys e \<longrightarrow>
      post_id \<notin> c_post_id ` set (comments (delete_post_row (foreign_keys e) post_id s))
    \<and> post_id \<notin> l_post_id ` set (likes (delete_post_row (foreign_keys e) post_id s))"
    by (auto simp: delete_post_row_def)
  ultimately show ?thesis by blast
qed

lemma delete_post_no_cascade:
  assumes found: "select_post s post_id = Inr (Some p)"
    and author: "p_author_id p = u_id user"
    and off: "\<not> foreign_keys e"
  shows "delete_post e s post_id user
           = (Inr Status_ok, s\<lparr>posts := filter (\<lambda>q. p_id q \<noteq> post_id) (posts s)\<rparr>)"
  using found author off by (simp add: delete_post_def delete_post_row_def)

lemma delete_post_overflow:
  "\<not> fits_int64 post_id \<Longrightarrow> delete_post e s post_id user = (Inl OverflowError, s)"
  by (simp add: delete_post_def select_post_overflow)

lemma update_post_overflow:
  "str_strip txt \<noteq> [] \<Longrightarrow> \<not> fits_int64 post_id \<Longrightarrow>
     update_post e s post_id txt image_file remove_image user hex now_media now_update
       = (Inl OverflowError, s)"
  by (simp add: update_post_def select_post_overflow)

text \<open>
  Claim C1. The schema of \<open>init_db\<close> declares the \<open>post_id\<close> of comments and of likes with
  \<open>ON DELETE CASCADE\<close>, and \<open>delete_post\<close> relies on it: it only deletes the post row. The
  connection of \<open>delete_post\<close> does not enforce foreign keys, and the media table has no
  foreign key at all. Alice deletes her post, which has an image, a comment of Bob and a
  like of Bob: the call succeeds and the post row is gone, while the comment row, the like row
  and the media row of the post are all still stored.
\<close>
theorem delete_post_leaves_dependent_rows:
  "\<not> foreign_keys (example_env False)
 \<and> select_post (st_like False) 1 = Inr (Some hello_post)
 \<and> p_author_id hello_post = u_id alice
 \<and> delete_post (example_env False) (st_like False) 1 alice
     = (Inr Status_ok, (st_like False)\<lparr>posts := []\<rparr>)
 \<and> comments ((st_like False)\<lparr>posts := []\<rparr>) = [nice_comment]
 \<and> c_post_id nice_comment = p_id hello_post
 \<and> likes ((st_like False)\<lparr>posts := []\<rparr>) = [bob_like]
 \<and> l_post_id bob_like = p_id hello_post
 \<and> media ((st_like False)\<lparr>posts := []\<rparr>) = [cat_media]
 \<and> m_owner_type cat_media = ''post'' \<and> m_owner_id cat_media = p_id hello_post"
  by code_simp

lemma delete_post_not_found:
  "select_post s post_id = Inr None \<Longrightarrow>
     delete_post e s post_id user = (Inl (HTTPException 404 Post_not_found), s)"
  by (simp add: delete_post_def)

lemma delete_post_forbidden:
  "select_post s post_id = Inr (Some p) \<Longrightarrow> p_author_id p \<noteq> u_id user \<Longrightarrow>
     delete_post e s post_id user = (Inl (HTTPException 403 No_access), s)"
  by (simp add: delete_post_def)

lemma update_post_not_found:
  "str_strip txt \<noteq> [] \<Longrightarrow> select_post s post_id = Inr None \<Longrightarrow>
     update_post e s post_id txt image_file remove_image user hex now_media now_update
       = (Inl (HTTPException 404 Post_not_found), s)"
  by (simp add: update_post_def)

lemma update_post_forbidden:
  "str_strip txt \<noteq> [] \<Longrightarrow> select_post s post_id = Inr (Some p) \<Longrightarrow> p_author_id p \<noteq> u_id user \<Longrightarrow>
     update_post e s post_id txt image_file remove_image user hex now_media now_update
       = (Inl (HTTPException 403 No_access), s)"
  by (simp add: update_post_def)

lemma delete_post_success_author:
  assumes "fst (delete_post e s post_id user) = Inr r"
  shows "\<exists>p. select_post s post_id = Inr (Some p) \<and> p_author_id p = u_id user"
proof (cases "select_post s post_id")
  case (Inl err)
  with assms show ?thesis by (simp add: delete_post_def)
next
  case (Inr row)
  show ?thesis
  proof (cases row)
    case None
    with Inr assms show ?thesis by (simp add: delete_post_def)
  next
    case (Some p)
    with Inr assms show ?thesis
      by (cases "p_author_id p = u_id user") (simp_all add: delete_post_def)
  qed
qed

lemma update_post_success_author:
  assumes "fst (update_post e s post_id txt image_file remove_image user hex now_media now_update) = Inr r"
  shows "str_strip txt \<noteq> [] \<and> (\<exists>p. select_post s post_id = Inr (Some p) \<and> p_author_id p = u_id user)"
proof (cases "str_strip txt = []")
  case True
  with assms show ?thesis by (simp add: update_post_def)
next
  case ne: False
  show ?thesis
  proof (cases "select_post s post_id")
    case (Inl err)
    with assms ne show ?thesis by (simp add: update_post_def)
  next
    case (Inr row)
    show ?thesis
    proof (cases row)
      case None
      with Inr assms ne show ?thesis by (simp add: update_post_def)
    next
      case (Some p)
      with Inr assms ne show ?thesis
        by (cases "p_author_id p = u_id user") (simp_all add: update_post_def)
    qed
  qed
qed

text \<open>
  Claim C6 (amended). For a post id that fits the signed 64-bit INTEGER of the store,
  \<open>delete_post\<close> raises 404 when no post has the id and 403, with the store unchanged,
  when the post belongs to another user. \<open>update_post\<close> does the same whenever its text
  is not empty after stripping. Either call can only succeed when the id fits, the post
  exists and the caller is its author.
\<close>
theorem update_delete_post_authorization:
  "(fits_int64 post_id \<and> post_id \<notin> p_id ` set (posts s) \<longrightarrow>
      delete_post e s post_id user = (Inl (HTTPException 404 Post_not_found), s)
    \<and> (str_strip txt \<noteq> [] \<longrightarrow>
         update_post e s post_id txt image_file remove_image user hex now_media now_update
           = (Inl (HTTPException 404 Post_not_found), s)))
 \<and> (\<forall>p. select_post s post_id = Inr (Some p) \<and> p_author_id p \<noteq> u_id user \<longrightarrow>
      delete_post e s post_id user = (Inl (HTTPException 403 No_access), s)
    \<and> (str_strip txt \<noteq> [] \<longrightarrow>
         update_post e s post_id txt image_file remove_image user hex now_media now_update
           = (Inl (HTTPException 403 No_access), s)))
 \<and> ((\<exists>r. fst (delete_post e s post_id user) = Inr r)
      \<or> (\<exists>r. fst (update_post e s post_id txt image_file remove_image user hex now_media now_update) = Inr r)
     \<longrightarrow> fits_int64 post_id
         \<and> (\<exists>p. select_post s post_id = Inr (Some p) \<and> p_author_id p = u_id user))"
proof (intro conjI impI allI)
  assume "fits_int64 post_id \<and> post_id \<notin> p_id ` set (posts s)"
  then have "select_post s post_id = Inr None" by (simp add: select_post_None)
  then show "delete_post e s post_id user = (Inl (HTTPException 404 Post_not_found), s)"
    by (rule delete_post_not_found)
next
  assume "fits_int64 post_id \<and> post_id \<notin> p_id ` set (posts s)" and ne: "str_strip txt \<noteq> []"
  then have "select_post s post_id = Inr None" by (simp add: select_post_None)
  with ne show "update_post e s post_id txt image_file remove_image user hex now_media now_update
           = (Inl (HTTPException 404 Post_not_found), s)"
    by (simp add: update_post_not_found)
next
  fix p assume "select_post s post_id = Inr (Some p) \<and> p_author_id p \<noteq> u_id user"
  then show "delete_post e s post_id user = (Inl (HTTPException 403 No_access), s)"
    by (simp add: delete_post_forbidden)
next
  fix p assume "select_post s post_id = Inr (Some p) \<and> p_author_id p \<noteq> u_id user"
    and "str_strip txt \<noteq> []"
  then show "update_post e s post_id txt image_file remove_image user hex now_media now_update
           = (Inl (HTTPException 403 No_access), s)"
    by (simp add: update_post_forbidden)
next
  assume ok: "(\<exists>r. fst (delete_post e s post_id user) = Inr r)
      \<or> (\<exists>r. fst (update_post e s post_id txt image_file remove_image user hex now_media now_update) = Inr r)"
  then show found: "\<exists>p. select_post s post_id = Inr (Some p) \<and> p_author_id p = u_id user"
    using delete_post_success_author update_post_success_author by blast
  then show "fits_int64 post_id" using select_post_fits by blast
qed

text \<open>
  Bob's calls for a post id that does not exist and for Alice's post, and Alice's own call.
\<close>

theorem update_delete_post_authorization_witness:
  "fits_int64 42 \<and> 42 \<notin> p_id ` set (posts (st_like False))
 \<and> str_strip ''edited'' \<noteq> []
 \<and> delete_post (example_env False) (st_like False) 42 bob
       = (Inl (HTTPException 404 Post_not_found), st_like False)
 \<and> update_post (example_env False) (st_like False) 42 ''edited'' None False bob ''d4''
       ''2024-05-02T08:00:00.100000Z'' ''2024-05-02T08:00:00.200000Z''
       = (Inl (HTTPException 404 Post_not_found), st_like False)
 \<and> select_post (st_like False) 1 = Inr (Some hello_post)
 \<and> p_author_id hello_post \<noteq> u_id bob
 \<and> delete_post (example_env False) (st_like False) 1 bob
       = (Inl (HTTPException 403 No_access), st_like False)
 \<and> update_post (example_env False) (st_like False) 1 ''edited'' None False bob ''d4''
       ''2024-05-02T08:00:00.100000Z'' ''2024-05-02T08:00:00.200000Z''
       = (Inl (HTTPException 403 No_access), st_like False)
 \<and> fst (delete_post (example_env False) (st_like False) 1 alice) = Inr Status_ok
 \<and> fits_int64 1
 \<and> (\<exists>p. select_post (st_like False) 1 = Inr (Some p) \<and> p_author_id p = u_id alice)"
proof -
  have absent: "fits_int64 42 \<and> 42 \<notin> p_id ` set (posts (st_like False))" by code_simp
  have nonblank: "str_strip ''edited'' \<noteq> []" by code_simp
  have present: "select_post (st_like False) 1 = Inr (Some hello_post)" by code_simp
  have other: "p_author_id hello_post \<noteq> u_id bob" by code_simp
  have ok: "fst (delete_post (example_env False) (st_like False) 1 alice) = Inr Status_ok"
    by code_simp
  note missing = update_delete_post_authorization[of 42 "st_like False" "example_env False" bob
      "''edited''" None False "''d4''" "''2024-05-02T08:00:00.100000Z''"
      "''2024-05-02T08:00:00.200000Z''"]
  note foreign = update_delete_post_authorization[of 1 "st_like False" "example_env False" bob
      "''edited''" None False "''d4''" "''2024-05-02T08:00:00.100000Z''"
      "''2024-05-02T08:00:00.200000Z''"]
  note own = update_delete_post_authorization[of 1 "st_like False" "example_env False" alice
      "''edited''" None False "''d4''" "''2024-05-02T08:00:00.100000Z''"
      "''2024-05-02T08:00:00.200000Z''"]
  from missing absent nonblank have m1: "delete_post (example_env False) (st_like False) 42 bob
       = (Inl (HTTPException 404 Post_not_found), st_like False)"
    and m2: "update_post (example_env False) (st_like False) 42 ''edited'' None False bob ''d4''
       ''2024-05-02T08:00:00.100000Z'' ''2024-05-02T08:00:00.200000Z''
       = (Inl (HTTPException 404 Post_not_found), st_like False)"
    by blast+
  from foreign present other nonblank have f1: "delete_post (example_env False) (st_like False) 1 bob
       = (Inl (HTTPException 403 No_access), st_like False)"
    and f2: "update_post (example_env False) (st_like False) 1 ''edited'' None False bob ''d4''
       ''2024-05-02T08:00:00.100000Z'' ''2024-05-02T08:00:00.200000Z''
       = (Inl (HTTPException 403 No_access), st_like False)"
    by blast+
  from own ok have o1: "fits_int64 1"
    and o2: "\<exists>p. select_post (st_like False) 1 = Inr (Some p) \<and> p_author_id p = u_id alice"
    by blast+
  from absent nonblank m1 m2 present other f1 f2 ok o1 o2 show ?thesis
    by (intro conjI) (assumption | erule conjunct1 | erule conjunct2)+
qed

text \<open>
  As the claim was first written, \<open>update_post\<close> was to answer 404 for every missing post
  and 403 for every post of another user. With a text of two spaces it answers 400 in both
  situations, since the text is checked first. And for the id $2^{63}$, which no post has,
  both calls fail with \<open>OverflowError\<close>, not with 404 (lemmas \<open>delete_post_overflow\<close> and
  \<open>update_post_overflow\<close>).
\<close>

theorem update_post_blank_text_not_found_counterexample:
  "42 \<notin> p_id ` set (posts (st_like False))
 \<and> fst (update_post (example_env False) (st_like False) 42 ''  '' None False bob ''d4''
      ''2024-05-02T08:00:00.100000Z'' ''2024-05-02T08:00:00.200000Z'')
     = Inl (HTTPException 400 Post_text_required)
 \<and> fst (update_post (example_env False) (st_like False) 42 ''  '' None False bob ''d4''
      ''2024-05-02T08:00:00.100000Z'' ''2024-05-02T08:00:00.200000Z'')
     \<noteq> Inl (HTTPException 404 Post_not_found)
 \<and> select_post (st_like False) 1 = Inr (Some hello_post)
 \<and> p_author_id hello_post \<noteq> u_id bob
 \<and> fst (update_post (example_env False) (st_like False) 1 ''  '' None False bob ''d4''
      ''2024-05-02T08:00:00.100000Z'' ''2024-05-02T08:00:00.200000Z'')
     \<noteq> Inl (HTTPException 403 No_access)
 \<and> 9223372036854775808 \<notin> p_id ` set (posts (st_like False))
 \<and> fst (delete_post (example_env False) (st_like False) 9223372036854775808 bob)
     = Inl OverflowError
 \<and> fst (delete_post (example_env False) (st_like False) 9223372036854775808 bob)
     \<noteq> Inl (HTTPException 404 Post_not_found)
 \<and> fst (update_post (example_env False) (st_like False) 9223372036854775808 ''edited'' None
      False bob ''d4'' ''2024-05-02T08:00:00.100000Z'' ''2024-05-02T08:00:00.200000Z'')
     = Inl OverflowError"
  by code_simp

lemma update_post_row_posts:
  assumes mem: "q \<in> set (posts (update_post_row txt image_url updated post_id s))"
    and qid: "p_id q = post_id"
  shows "p_text q = txt \<and> p_image_url q = image_url \<and> p_updated_at q = Some updated"
proof -
  from mem have "q \<in> (\<lambda>p. if p_id p = post_id
        then p\<lparr>p_text := txt, p_image_url := image_url, p_updated_at := Some updated\<rparr>
        else p) ` set (posts s)"
    by (simp add: update_post_row_def)
  then obtain p where q: "q = (if p_id p = post_id
        then p\<lparr>p_text := txt, p_image_url := image_url, p_updated_at := Some updated\<rparr>
        else p)"
    by blast
  show ?thesis
  proof (cases "p_id p = post_id")
    case True
    with q show ?thesis by simp
  next
    case False
    with q qid show ?thesis by simp
  qed
qed

lemma update_post_row_ids:
  "map p_id (posts (update_post_row txt image_url updated post_id s)) = map p_id (posts s)"
  by (simp add: update_post_row_def comp_def if_distrib[of p_id] cong: if_cong)

lemma get_post_out_Inr:
  assumes "get_post_out s post_id = Inr out"
  shows "\<exists>q u. q \<in> set (posts s) \<and> u \<in> set (users s) \<and> p_id q = post_id \<and> u_id u = p_author_id q
          \<and> out = post_out s q u False"
proof -
  from assms obtain q u where
    f: "fetchone (filter (\<lambda>(p, u). p_id p = post_id) (posts_join_users s)) = Some (q, u)"
    and o: "out = post_out s q u False"
    by (auto simp: get_post_out_def split: option.splits prod.splits if_splits)
  from fetchone_Some_mem[OF f] have "q \<in> set (posts s)" "u \<in> set (users s)" "p_id q = post_id"
      "u_id u = p_author_id q"
    by (auto simp: posts_join_users_def)
  with o show ?thesis by blast
qed


lemma update_post_authorized:
  assumes "str_strip txt \<noteq> []" and "select_post s post_id = Inr (Some post)"
    and "p_author_id post = u_id user"
  shows "update_post e s post_id txt image_file remove_image user hex now_media now_update =
     (case (case image_file of
              Some file \<Rightarrow>
                (case save_upload e file (''post'' @ str_int (u_id user)) hex s of
                   (Inl err, s1) \<Rightarrow> (Inl err, s1)
                 | (Inr url, s1) \<Rightarrow>
                     (Inr (Some url), insert_media ''post'' post_id url ''image'' now_media s1))
            | None \<Rightarrow>
                if remove_image then (Inr None, s) else (Inr (p_image_url post), s)) of
        (Inl err, s1) \<Rightarrow> (Inl err, s1)
      | (Inr image_url, s1) \<Rightarrow>
          let s2 = update_post_row (str_strip txt) image_url now_update post_id s1
          in (get_post_out s2 post_id, s2))"
  using assms by (simp add: update_post_def)

lemma update_post_result:
  assumes run: "(get_post_out (update_post_row txt image_url updated post_id s1) post_id,
                 update_post_row txt image_url updated post_id s1) = (Inr out, s')"
  shows "po_image_url out = image_url \<and> po_updated_at out = Some updated
       \<and> (\<exists>q \<in> set (posts s'). p_id q = post_id)
       \<and> (\<forall>q \<in> set (posts s'). p_id q = post_id \<longrightarrow>
             p_image_url q = image_url \<and> p_updated_at q = Some updated)"
proof -
  from run have s': "s' = update_post_row txt image_url updated post_id s1"
    and out: "get_post_out s' post_id = Inr out"
    by auto
  from get_post_out_Inr[OF out] obtain q u where
    q: "q \<in> set (posts s')" "p_id q = post_id" and o: "out = post_out s' q u False"
    by blast
  have fields: "\<And>r. r \<in> set (posts s') \<Longrightarrow> p_id r = post_id \<Longrightarrow>
      p_image_url r = image_url \<and> p_updated_at r = Some updated"
    unfolding s' using update_post_row_posts by blast
  have "po_image_url out = image_url" "po_updated_at out = Some updated"
    using fields[OF q] o by (simp_all add: post_out_def)
  then show ?thesis using q fields by blast
qed

text \<open>
  Claim C7. After a successful \<open>update_post\<close>: with a new image the image URL of the post
  is the URL under which \<open>_save_upload\<close> has stored it; with no image and \<open>remove_image\<close>
  set it is absent; with no image and the flag not set it is the URL the post had before.
  In all three cases \<open>updated_at\<close> is the time of the update. This holds for the returned
  \<open>PostOut\<close> and for the stored row.
\<close>
theorem update_post_image_rule:
  assumes ok: "update_post e s post_id txt image_file remove_image user hex now_media now_update
                 = (Inr out, s')"
  shows "\<exists>post. select_post s post_id = Inr (Some post)
      \<and> (\<forall>file. image_file = Some file \<longrightarrow>
            (\<exists>url. fst (save_upload e file (''post'' @ str_int (u_id user)) hex s) = Inr url
                 \<and> po_image_url out = Some url))
      \<and> (image_file = None \<and> remove_image \<longrightarrow> po_image_url out = None)
      \<and> (image_file = None \<and> \<not> remove_image \<longrightarrow> po_image_url out = p_image_url post)
      \<and> po_updated_at out = Some now_update
      \<and> (\<exists>q \<in> set (posts s'). p_id q = post_id)
      \<and> (\<forall>q \<in> set (posts s'). p_id q = post_id \<longrightarrow>
            p_image_url q = po_image_url out \<and> p_updated_at q = Some now_update)"
proof -
  from ok have "fst (update_post e s post_id txt image_file remove_image user hex now_media now_update) = Inr out"
    by simp
  from update_post_success_author[OF this] obtain post where
    ne: "str_strip txt \<noteq> []" and post: "select_post s post_id = Inr (Some post)"
    and author: "p_author_id post = u_id user"
    by blast
  note unfold = update_post_authorized[OF ne post author, of e image_file remove_image hex now_media now_update]
  show ?thesis
  proof (cases image_file)
    case None
    show ?thesis
    proof (cases remove_image)
      case True
      from ok unfold None True
      have "(get_post_out (update_post_row (str_strip txt) None now_update post_id s) post_id,
             update_post_row (str_strip txt) None now_update post_id s) = (Inr out, s')"
        by (simp add: Let_def)
      from update_post_result[OF this] show ?thesis
        using post None True by simp
    next
      case False
      from ok unfold None False
      have "(get_post_out (update_post_row (str_strip txt) (p_image_url post) now_update post_id s) post_id,
             update_post_row (str_strip txt) (p_image_url post) now_update post_id s) = (Inr out, s')"
        by (simp add: Let_def)
      from update_post_result[OF this] show ?thesis
        using post None False by simp
    qed
  next
    case (Some upl)
    obtain r s1 where up: "save_upload e upl (''post'' @ str_int (u_id user)) hex s = (r, s1)"
      by (cases "save_upload e upl (''post'' @ str_int (u_id user)) hex s")
    show ?thesis
    proof (cases r)
      case (Inl err)
      with ok unfold Some up show ?thesis by simp
    next
      case (Inr url)
      from ok unfold Some up Inr
      have "(get_post_out (update_post_row (str_strip txt) (Some url) now_update post_id
                (insert_media ''post'' post_id url ''image'' now_media s1)) post_id,
             update_post_row (str_strip txt) (Some url) now_update post_id
                (insert_media ''post'' post_id url ''image'' now_media s1)) = (Inr out, s')"
        by (simp add: Let_def)
      from update_post_result[OF this] show ?thesis
        using post Some up Inr by simp
    qed
  qed
qed

text \<open>
  Alice edits her post, which has an image: once with a new image, once with the removal
  flag, once with neither.
\<close>

theorem update_post_image_rule_witness:
  "update_post (example_env False) (st_like False) 1 '' edited '' (Some dog) False alice ''d4''
     ''2024-05-02T08:00:00.100000Z'' ''2024-05-02T08:00:00.200000Z''
     = (Inr (edited_out (Some ''/uploads/post1_d4.jpeg'')), st_edited (Some dog) False)
 \<and> fst (save_upload (example_env False) dog (''post'' @ str_int (u_id alice)) ''d4'' (st_like False))
     = Inr ''/uploads/post1_d4.jpeg''
 \<and> update_post (example_env False) (st_like False) 1 '' edited '' None True alice ''d4''
     ''2024-05-02T08:00:00.100000Z'' ''2024-05-02T08:00:00.200000Z''
     = (Inr (edited_out None), st_edited None True)
 \<and> update_post (example_env False) (st_like False) 1 '' edited '' None False alice ''d4''
     ''2024-05-02T08:00:00.100000Z'' ''2024-05-02T08:00:00.200000Z''
     = (Inr (edited_out (p_image_url hello_post)), st_edited None False)
 \<and> select_post (st_like False) 1 = Inr (Some hello_post)
 \<and> po_image_url (edited_out (Some ''/uploads/post1_d4.jpeg'')) = Some ''/uploads/post1_d4.jpeg''
 \<and> po_image_url (edited_out None) = None
 \<and> po_image_url (edited_out (p_image_url hello_post)) = Some ''/uploads/post1_c3.png''
 \<and> po_updated_at (edited_out None) = Some ''2024-05-02T08:00:00.200000Z''
 \<and> map (\<lambda>q. (p_id q, p_image_url q, p_updated_at q)) (posts (st_edited (Some dog) False))
     = [(1, Some ''/uploads/post1_d4.jpeg'', Some ''2024-05-02T08:00:00.200000Z'')]
 \<and> map (\<lambda>q. (p_id q, p_image_url q, p_updated_at q)) (posts (st_edited None True))
     = [(1, None, Some ''2024-05-02T08:00:00.200000Z'')]
 \<and> map (\<lambda>q. (p_id q, p_image_url q, p_updated_at q)) (posts (st_edited None False))
     = [(1, Some ''/uploads/post1_c3.png'', Some ''2024-05-02T08:00:00.200000Z'')]"
proof -
  have replace: "update_post (example_env False) (st_like False) 1 '' edited '' (Some dog) False
     alice ''d4'' ''2024-05-02T08:00:00.100000Z'' ''2024-05-02T08:00:00.200000Z''
     = (Inr (edited_out (Some ''/uploads/post1_d4.jpeg'')), st_edited (Some dog) False)"
    by code_simp
  have stored: "fst (save_upload (example_env False) dog (''post'' @ str_int (u_id alice)) ''d4''
     (st_like False)) = Inr ''/uploads/post1_d4.jpeg''"
    by code_simp
  have remove: "update_post (example_env False) (st_like False) 1 '' edited '' None True alice
     ''d4'' ''2024-05-02T08:00:00.100000Z'' ''2024-05-02T08:00:00.200000Z''
     = (Inr (edited_out None), st_edited None True)"
    by code_simp
  have keep: "update_post (example_env False) (st_like False) 1 '' edited '' None False alice
     ''d4'' ''2024-05-02T08:00:00.100000Z'' ''2024-05-02T08:00:00.200000Z''
     = (Inr (edited_out (p_image_url hello_post)), st_edited None False)"
    by code_simp
  have found: "select_post (st_like False) 1 = Inr (Some hello_post)" by code_simp
  have a: "po_image_url (edited_out (Some ''/uploads/post1_d4.jpeg''))
      = Some ''/uploads/post1_d4.jpeg''"
    using update_post_image_rule[OF replace] stored by auto
  have b: "po_image_url (edited_out None) = None"
    and u: "po_updated_at (edited_out None) = Some ''2024-05-02T08:00:00.200000Z''"
    using update_post_image_rule[OF remove] by auto
  have c: "po_image_url (edited_out (p_image_url hello_post)) = Some ''/uploads/post1_c3.png''"
    using update_post_image_rule[OF keep] found by (auto simp: hello_post_def)
  have ra: "map (\<lambda>q. (p_id q, p_image_url q, p_updated_at q)) (posts (st_edited (Some dog) False))
     = [(1, Some ''/uploads/post1_d4.jpeg'', Some ''2024-05-02T08:00:00.200000Z'')]"
    by code_simp
  have rb: "map (\<lambda>q. (p_id q, p_image_url q, p_updated_at q)) (posts (st_edited None True))
     = [(1, None, Some ''2024-05-02T08:00:00.200000Z'')]"
    by code_simp
  have rc: "map (\<lambda>q. (p_id q, p_image_url q, p_updated_at q)) (posts (st_edited None False))
     = [(1, Some ''/uploads/post1_c3.png'', Some ''2024-05-02T08:00:00.200000Z'')]"
    by code_simp
  from replace stored remove keep found a b c u ra rb rc show ?thesis
    by (intro conjI) assumption+
qed

lemma order_by_desc_sorted:
  "sorted_wrt (\<lambda>a b. key b \<le> key a) (order_by_desc key rows)"
proof -
  have "sorted (map key (sort_key key (rev rows)))" by (rule sorted_sort_key)
  then have "sorted_wrt (\<lambda>a b. key a \<le> key b) (sort_key key (rev rows))"
    by (simp add: sorted_map)
  then show ?thesis
    by (simp add: order_by_desc_def sorted_wrt_rev)
qed

lemma bearer_token_absent: "authorization req = None \<Longrightarrow> bearer_token req = []"
  by (simp add: bearer_token_def)

lemma feed_limit_clamped:
  "max 1 (min (case limit_arg of None \<Rightarrow> 20 | Some l \<Rightarrow> l) 50) = spec_limit limit_arg"
  by (cases limit_arg) (simp_all add: spec_limit_def)

lemma feed_offset_clamped:
  "max 0 (case offset_arg of None \<Rightarrow> 0 | Some off \<Rightarrow> off) = spec_offset offset_arg"
  by (cases offset_arg) (simp_all add: spec_offset_def)

lemma spec_limit_range: "1 \<le> spec_limit limit_arg \<and> spec_limit limit_arg \<le> 50"
  by (cases limit_arg) (simp_all add: spec_limit_def)

lemma spec_offset_range: "0 \<le> spec_offset offset_arg"
  by (cases offset_arg) (simp_all add: spec_offset_def)

lemma spec_limit_fits: "fits_int64 (spec_limit limit_arg)"
  using spec_limit_range[of limit_arg] by (simp add: fits_int64_def)

lemma limit_offset_page:
  "fits_int64 lim \<Longrightarrow> fits_int64 off \<Longrightarrow> 0 \<le> lim \<Longrightarrow>
     limit_offset lim off rows = Inr (take (nat lim) (drop (nat off) rows))"
  by (simp add: limit_offset_def)

lemma limit_offset_overflow:
  "\<not> fits_int64 off \<Longrightarrow> limit_offset lim off rows = Inl OverflowError"
  by (simp add: limit_offset_def)

text \<open>
  An offset of $2^{63}$ or more cannot be bound to \<open>OFFSET ?\<close>: the call fails. With any
  other offset \<open>feed\<close> returns a page.
\<close>

lemma feed_overflow:
  assumes "\<not> fits_int64 (spec_offset offset_arg)"
  shows "feed s limit_arg offset_arg req = Inl OverflowError"
proof -
  have "limit_offset (spec_limit limit_arg) (spec_offset offset_arg)
          (order_by_desc (\<lambda>(p, u). p_created_at p) (posts_join_users s)) = Inl OverflowError"
    using assms by (rule limit_offset_overflow)
  then show ?thesis
    unfolding feed_def Let_def feed_limit_clamped feed_offset_clamped by simp
qed

lemma feed_rows:
  assumes "fits_int64 (spec_offset offset_arg)"
  shows "feed s limit_arg offset_arg req =
     Inr (map (\<lambda>(p, u). post_out s p u
            (case (if (case req of None \<Rightarrow> [] | Some r \<Rightarrow> bearer_token r) \<noteq> []
                   then get_user_by_token s (case req of None \<Rightarrow> [] | Some r \<Rightarrow> bearer_token r)
                   else None) of
               Some viewer \<Rightarrow> like_exists s (p_id p) (u_id viewer)
             | None \<Rightarrow> False))
       (take (nat (spec_limit limit_arg)) (drop (nat (spec_offset offset_arg))
          (order_by_desc (\<lambda>(p, u). p_created_at p) (posts_join_users s)))))"
proof -
  have "limit_offset (spec_limit limit_arg) (spec_offset offset_arg)
          (order_by_desc (\<lambda>(p, u). p_created_at p) (posts_join_users s))
        = Inr (take (nat (spec_limit limit_arg)) (drop (nat (spec_offset offset_arg))
                 (order_by_desc (\<lambda>(p, u). p_created_at p) (posts_join_users s))))"
    using spec_limit_fits assms spec_limit_range[of limit_arg]
    by (intro limit_offset_page) simp_all
  then show ?thesis
    unfolding feed_def Let_def feed_limit_clamped feed_offset_clamped by simp
qed

text \<open>
  The page that \<open>feed\<close> returns, for every store, limit, offset below $2^{63}$ and request:
  the limit and the offset are those of the specification, the page has at most as many
  entries as the limit, it is in descending order of the \<open>created_at\<close> texts, and without a
  viewer no entry has \<open>liked_by_me\<close> set.
\<close>

lemma feed_page:
  assumes fits: "fits_int64 (spec_offset offset_arg)"
  shows "\<exists>page. feed s limit_arg offset_arg req = Inr page
   \<and> map po_id page
       = map (\<lambda>(p, u). p_id p)
           (take (nat (spec_limit limit_arg)) (drop (nat (spec_offset offset_arg))
              (order_by_desc (\<lambda>(p, u). p_created_at p) (posts_join_users s))))
   \<and> int (length page) \<le> spec_limit limit_arg
   \<and> sorted_wrt (\<lambda>a b. po_created_at b \<le> po_created_at a) page
   \<and> (req = None \<or> (\<exists>r. req = Some r \<and>
          (authorization r = None \<or> bearer_token r = []
            \<or> get_user_by_token s (bearer_token r) = None))
        \<longrightarrow> (\<forall>x \<in> set page. \<not> po_liked_by_me x))"
proof -
  define rows where "rows = take (nat (spec_limit limit_arg)) (drop (nat (spec_offset offset_arg))
          (order_by_desc (\<lambda>(p, u). p_created_at p) (posts_join_users s)))"
  define viewer where "viewer =
      (if (case req of None \<Rightarrow> [] | Some r \<Rightarrow> bearer_token r) \<noteq> []
       then get_user_by_token s (case req of None \<Rightarrow> [] | Some r \<Rightarrow> bearer_token r)
       else None)"
  define page where "page = map (\<lambda>(p, u). post_out s p u
            (case viewer of
               Some v \<Rightarrow> like_exists s (p_id p) (u_id v)
             | None \<Rightarrow> False)) rows"
  have run: "feed s limit_arg offset_arg req = Inr page"
    unfolding page_def rows_def viewer_def by (rule feed_rows[OF fits])
  have ids: "map po_id page = map (\<lambda>(p, u). p_id p) rows"
    by (simp add: page_def post_out_def case_prod_unfold comp_def)
  have created: "map po_created_at page = map (\<lambda>(p, u). p_created_at p) rows"
    by (simp add: page_def post_out_def case_prod_unfold comp_def)
  have "length rows \<le> nat (spec_limit limit_arg)" by (simp add: rows_def)
  then have "int (length rows) \<le> spec_limit limit_arg"
    using spec_limit_range[of limit_arg] by linarith
  then have len: "int (length page) \<le> spec_limit limit_arg"
    by (simp add: page_def)
  have "sorted_wrt (\<lambda>a b. (case b of (p, u) \<Rightarrow> p_created_at p) \<le> (case a of (p, u) \<Rightarrow> p_created_at p)) rows"
    unfolding rows_def by (intro sorted_wrt_take sorted_wrt_drop order_by_desc_sorted)
  then have "sorted_wrt (\<lambda>a b. b \<le> a) (map po_created_at page)"
    unfolding created by (simp add: sorted_wrt_map)
  then have sorted: "sorted_wrt (\<lambda>a b. po_created_at b \<le> po_created_at a) page"
    by (simp add: sorted_wrt_map)
  have anon: "\<forall>x \<in> set page. \<not> po_liked_by_me x"
    if "req = None \<or> (\<exists>r. req = Some r \<and>
          (authorization r = None \<or> bearer_token r = []
            \<or> get_user_by_token s (bearer_token r) = None))"
  proof -
    from that have "req = None \<or> (\<exists>r. req = Some r \<and>
             (bearer_token r = [] \<or> get_user_by_token s (bearer_token r) = None))"
      using bearer_token_absent by blast
    then have "viewer = None" unfolding viewer_def by auto
    then show ?thesis by (auto simp: page_def post_out_def)
  qed
  show ?thesis
    using run ids[unfolded rows_def] len sorted anon by blast
qed

text \<open>
  Claim C4. \<open>feed\<close> orders the posts by the \<open>created_at\<close> text that \<open>_now_iso\<close> wrote, and
  that text has no fraction when the post was created on a full second. Alice posts at
  12:00:00 sharp and Bob half a second later: the text of the second post is the smaller
  one, so the feed lists the older post first, not the most recent one. And the offset is
  only clamped from below: with an offset of $2^{63}$ the call fails with \<open>OverflowError\<close>
  where an empty page was to be returned.
\<close>
theorem feed_lists_older_post_first:
  "earlier noon noon_half
 \<and> now_iso noon = ''2024-05-01T12:00:00Z''
 \<and> now_iso noon_half = ''2024-05-01T12:00:00.500000Z''
 \<and> map p_created_at (posts st_tock) = [now_iso noon, now_iso noon_half]
 \<and> feed st_tock None None None = Inr [first_out, second_out]
 \<and> feed st_tock None (Some 9223372036854775808) None = Inl OverflowError"
  by code_simp

lemma filter_unique:
  assumes "distinct (map g xs)" and "a \<in> set (map g xs)"
  shows "\<exists>x. x \<in> set xs \<and> g x = a \<and> filter (\<lambda>y. g y = a) xs = [x]"
  using assms
proof (induction xs)
  case Nil
  then show ?case by simp
next
  case (Cons x xs)
  show ?case
  proof (cases "g x = a")
    case True
    with Cons.prems have "a \<notin> set (map g xs)" by auto
    then have "filter (\<lambda>y. g y = a) xs = []" by (rule filter_key_absent)
    with True show ?thesis by auto
  next
    case False
    with Cons.prems have "distinct (map g xs)" "a \<in> set (map g xs)" by auto
    from Cons.IH[OF this] False show ?thesis by auto
  qed
qed

lemma join_fst:
  assumes d: "distinct (map g us)" and ex: "\<forall>c \<in> set cs. f c \<in> set (map g us)"
  shows "map fst (concat (map (\<lambda>c. map (\<lambda>u. (c, u)) (filter (\<lambda>u. g u = f c) us)) cs)) = cs"
  using ex
proof (induction cs)
  case Nil
  then show ?case by simp
next
  case (Cons c cs)
  then have "f c \<in> set (map g us)" by simp
  from filter_unique[OF d this] obtain u where "filter (\<lambda>y. g y = f c) us = [u]" by blast
  with Cons show ?case by simp
qed

lemma join_snd:
  "(c, u) \<in> set (concat (map (\<lambda>c. map (\<lambda>u. (c, u)) (filter (\<lambda>u. g u = f c) us)) cs))
     \<Longrightarrow> c \<in> set cs \<and> u \<in> set us \<and> g u = f c"
  by auto

lemma comments_join_users_fst:
  assumes "consistent s"
  shows "map fst (comments_join_users s post_id) = filter (\<lambda>c. c_post_id c = post_id) (comments s)"
  unfolding comments_join_users_def
  by (rule join_fst) (use assms in \<open>auto simp: consistent_def\<close>)

lemma comments_join_users_author:
  "(c, u) \<in> set (comments_join_users s post_id) \<Longrightarrow> u \<in> set (users s) \<and> u_id u = c_author_id c"
  unfolding comments_join_users_def by auto

lemma filter_join:
  "filter (\<lambda>(q, u). P q) (concat (map (\<lambda>q. map (\<lambda>u. (q, u)) (h q)) qs))
     = concat (map (\<lambda>q. map (\<lambda>u. (q, u)) (h q)) (filter P qs))"
  by (induction qs) (auto simp: filter_empty_conv)

lemma get_post_out_overflow:
  "\<not> fits_int64 post_id \<Longrightarrow> get_post_out s post_id = Inl OverflowError"
  by (simp add: get_post_out_def)

lemma get_post_out_absent:
  assumes "fits_int64 post_id" and "post_id \<notin> p_id ` set (posts s)"
  shows "get_post_out s post_id = Inl (HTTPException 404 Post_not_found)"
proof -
  have "filter (\<lambda>q. p_id q = post_id) (posts s) = []"
    using assms by (force simp: filter_empty_conv)
  then have "filter (\<lambda>(q, u). p_id q = post_id) (posts_join_users s) = []"
    unfolding posts_join_users_def filter_join by simp
  then show ?thesis using assms(1) by (simp add: get_post_out_def)
qed

lemma get_post_out_present:
  assumes c: "consistent s" and p: "p \<in> set (posts s)" and fits: "fits_int64 (p_id p)"
  shows "\<exists>u. u \<in> set (users s) \<and> u_id u = p_author_id p
           \<and> get_post_out s (p_id p) = Inr (post_out s p u False)"
proof -
  from c have dp: "distinct (map p_id (posts s))" and du: "distinct (map u_id (users s))"
    and au: "p_author_id p \<in> set (map u_id (users s))"
    using p by (auto simp: consistent_def)
  from p have "p_id p \<in> set (map p_id (posts s))" by simp
  from filter_unique[OF dp this] obtain q where q: "q \<in> set (posts s)" "p_id q = p_id p"
    and fq: "filter (\<lambda>y. p_id y = p_id p) (posts s) = [q]" by blast
  from p have "p \<in> set (filter (\<lambda>y. p_id y = p_id p) (posts s))" by simp
  then have qp: "q = p" unfolding fq by simp
  from filter_unique[OF du au] obtain u where u: "u \<in> set (users s)" "u_id u = p_author_id p"
    and fu: "filter (\<lambda>y. u_id y = p_author_id p) (users s) = [u]" by blast
  have "filter (\<lambda>(q, u). p_id q = p_id p) (posts_join_users s) = [(p, u)]"
    unfolding posts_join_users_def filter_join by (simp add: fq qp fu)
  then have "get_post_out s (p_id p) = Inr (post_out s p u False)"
    using fits by (simp add: get_post_out_def)
  with u show ?thesis by blast
qed

lemma get_post_Inl:
  "get_post_out s post_id = Inl err \<Longrightarrow> get_post s post_id req = Inl err"
  by (simp add: get_post_def)

lemma get_post_Inr:
  "get_post_out s post_id = Inr post \<Longrightarrow>
   get_post s post_id req =
     Inr \<lparr>pd_post = post,
          pd_comments = map (\<lambda>(c, u). comment_out c u)
             (order_by_asc (\<lambda>(c, u). c_created_at c) (comments_join_users s post_id)),
          pd_liked_by_me =
            (if bearer_token req \<noteq> []
             then (case get_user_by_token s (bearer_token req) of
                     Some user \<Rightarrow> like_exists s post_id (u_id user)
                   | None \<Rightarrow> False)
             else False)\<rparr>"
  by (simp add: get_post_def Let_def)

lemma like_exists_set:
  "like_exists s post_id uid \<longleftrightarrow> (\<exists>l \<in> set (likes s). l_post_id l = post_id \<and> l_user_id l = uid)"
  by (auto simp: like_exists_def filter_empty_conv)

lemma comment_list_fields:
  "map (\<lambda>r. (co_id r, co_post_id r, co_author_id r, co_text r, co_created_at r))
       (map (\<lambda>(c, u). comment_out c u) rows)
   = map (\<lambda>c. (c_id c, c_post_id c, c_author_id c, c_text c, c_created_at c)) (map fst rows)"
  by (simp add: comment_out_def case_prod_unfold comp_def)

lemma comment_list_sorted:
  "sorted (map co_created_at (map (\<lambda>(c, u). comment_out c u)
      (order_by_asc (\<lambda>(c, u). c_created_at c) rows)))"
proof -
  have "map co_created_at (map (\<lambda>(c, u). comment_out c u)
      (order_by_asc (\<lambda>(c, u). c_created_at c) rows))
    = map (\<lambda>(c, u). c_created_at c) (sort_key (\<lambda>(c, u). c_created_at c) rows)"
    by (simp add: comment_out_def case_prod_unfold comp_def order_by_asc_def)
  then show ?thesis by (simp only: sorted_sort_key)
qed

lemma comment_list_mset:
  assumes "consistent s"
  shows "mset (map (\<lambda>r. (co_id r, co_post_id r, co_author_id r, co_text r, co_created_at r))
           (map (\<lambda>(c, u). comment_out c u)
              (order_by_asc (\<lambda>(c, u). c_created_at c) (comments_join_users s post_id))))
       = mset (map (\<lambda>c. (c_id c, c_post_id c, c_author_id c, c_text c, c_created_at c))
           (filter (\<lambda>c. c_post_id c = post_id) (comments s)))"
proof -
  have "mset (map fst (order_by_asc (\<lambda>(c, u). c_created_at c) (comments_join_users s post_id)))
      = mset (map fst (comments_join_users s post_id))"
    by (simp add: order_by_asc_def)
  also have "\<dots> = mset (filter (\<lambda>c. c_post_id c = post_id) (comments s))"
    by (simp only: comments_join_users_fst[OF assms])
  finally have "mset (map fst (order_by_asc (\<lambda>(c, u). c_created_at c) (comments_join_users s post_id)))
      = mset (filter (\<lambda>c. c_post_id c = post_id) (comments s))" .
  then have "image_mset (\<lambda>c. (c_id c, c_post_id c, c_author_id c, c_text c, c_created_at c))
        (mset (map fst (order_by_asc (\<lambda>(c, u). c_created_at c) (comments_join_users s post_id))))
      = image_mset (\<lambda>c. (c_id c, c_post_id c, c_author_id c, c_text c, c_created_at c))
        (mset (filter (\<lambda>c. c_post_id c = post_id) (comments s)))"
    by (rule arg_cong)
  then show ?thesis
    unfolding comment_list_fields by (simp only: mset_map)
qed

lemma comment_list_authors:
  assumes "x \<in> set (map (\<lambda>(c, u). comment_out c u)
              (order_by_asc (\<lambda>(c, u). c_created_at c) (comments_join_users s post_id)))"
  shows "\<exists>u \<in> set (users s). u_id u = co_author_id x \<and> co_author_name x = u_name u
            \<and> co_author_avatar_url x = u_avatar_url u"
proof -
  from assms obtain c u where cu: "(c, u) \<in> set (comments_join_users s post_id)"
    and x: "x = comment_out c u"
    by (auto simp: order_by_asc_def)
  from comments_join_users_author[OF cu] x show ?thesis
    by (auto simp: comment_out_def)
qed

text \<open>Every handler keeps the store consistent, so every reachable store is.\<close>

lemma consistent_frame:
  "users s1 = users s \<and> posts s1 = posts s \<and> comments s1 = comments s \<Longrightarrow>
     consistent s \<Longrightarrow> consistent s1"
  by (simp add: consistent_def)

lemma consistent_init_db: "consistent init_db"
  by (simp add: consistent_def init_db_def)

lemma insert_user_consistent:
  assumes "insert_user nm em ph created s = Inr (i, s1)" and "consistent s"
  shows "consistent s1"
proof -
  have fresh: "next_id (seq_users s) (map u_id (users s)) \<notin> set (map u_id (users s))"
    by (rule next_id_fresh)
  from assms(1) have u: "map u_id (users s1) = map u_id (users s) @ [next_id (seq_users s) (map u_id (users s))]"
    and p: "posts s1 = posts s" and c: "comments s1 = comments s"
    by (auto simp: insert_user_def Let_def split: if_splits)
  from assms(2) fresh show ?thesis
    unfolding consistent_def u p c by auto
qed

lemma insert_session_frame:
  assumes "insert_session fk tok uid created s = Inr s1"
  shows "users s1 = users s \<and> posts s1 = posts s \<and> comments s1 = comments s"
  using assms by (auto simp: insert_session_def split: if_splits)

lemma insert_media_frame:
  "users (insert_media ot oi url ty created s) = users s
 \<and> posts (insert_media ot oi url ty created s) = posts s
 \<and> comments (insert_media ot oi url ty created s) = comments s"
  by (simp add: insert_media_def Let_def)

lemma save_upload_frame:
  assumes "save_upload e upload prefix hex s = (r, s1)"
  shows "users s1 = users s \<and> posts s1 = posts s \<and> comments s1 = comments s"
  using assms by (auto simp: save_upload_def Let_def split: option.splits if_splits)

lemma insert_post_consistent:
  assumes "insert_post fk author txt image_url created s = Inr (i, s1)"
    and "author \<in> set (map u_id (users s))" and "consistent s"
  shows "consistent s1"
proof -
  have fresh: "next_id (seq_posts s) (map p_id (posts s)) \<notin> set (map p_id (posts s))"
    by (rule next_id_fresh)
  from assms(1) have u: "users s1 = users s" and c: "comments s1 = comments s"
    and p: "posts s1 = posts s @
       [\<lparr>p_id = next_id (seq_posts s) (map p_id (posts s)), p_author_id = author, p_text = txt,
         p_image_url = image_url, p_created_at = created, p_updated_at = None\<rparr>]"
    by (auto simp: insert_post_def Let_def split: if_splits)
  from assms(2,3) fresh show ?thesis
    unfolding consistent_def u p c by auto
qed

lemma insert_comment_consistent:
  assumes "insert_comment fk post_id author txt created s = Inr (i, s1)"
    and "author \<in> set (map u_id (users s))" and "consistent s"
  shows "consistent s1"
proof -
  from assms(1) have u: "users s1 = users s" and p: "posts s1 = posts s"
    and c: "comments s1 = comments s @
       [\<lparr>c_id = next_id (seq_comments s) (map c_id (comments s)), c_post_id = post_id,
         c_author_id = author, c_text = txt, c_created_at = created\<rparr>]"
    by (auto simp: insert_comment_def Let_def split: if_splits)
  from assms(2,3) show ?thesis
    unfolding consistent_def u p c by auto
qed

lemma insert_like_frame:
  assumes "insert_like fk post_id uid created s = Inr s1"
  shows "users s1 = users s \<and> posts s1 = posts s \<and> comments s1 = comments s"
  using assms by (auto simp: insert_like_def Let_def split: if_splits)

lemma delete_like_frame:
  "users (delete_like post_id uid s) = users s \<and> posts (delete_like post_id uid s) = posts s
 \<and> comments (delete_like post_id uid s) = comments s"
  by (simp add: delete_like_def)

lemma delete_post_row_consistent:
  assumes "consistent s"
  shows "consistent (delete_post_row fk post_id s)"
proof -
  have u: "users (delete_post_row fk post_id s) = users s"
    and p: "posts (delete_post_row fk post_id s) = filter (\<lambda>p. p_id p \<noteq> post_id) (posts s)"
    and c: "set (comments (delete_post_row fk post_id s)) \<subseteq> set (comments s)"
    by (auto simp: delete_post_row_def)
  from assms have "distinct (map p_id (filter (\<lambda>p. p_id p \<noteq> post_id) (posts s)))"
    by (simp add: consistent_def distinct_map_filter)
  with assms c show ?thesis
    unfolding consistent_def u p by auto
qed

lemma update_post_row_consistent:
  assumes "consistent s"
  shows "consistent (update_post_row txt image_url updated post_id s)"
proof -
  have u: "users (update_post_row txt image_url updated post_id s) = users s"
    and c: "comments (update_post_row txt image_url updated post_id s) = comments s"
    by (simp_all add: update_post_row_def)
  have a: "map p_author_id (posts (update_post_row txt image_url updated post_id s))
         = map p_author_id (posts s)"
    by (simp add: update_post_row_def comp_def if_distrib[of p_author_id] cong: if_cong)
  have "\<forall>a \<in> set (map p_author_id (posts s)). a \<in> set (map u_id (users s))"
    using assms by (auto simp: consistent_def)
  then have "\<forall>a \<in> set (map p_author_id (posts (update_post_row txt image_url updated post_id s))).
      a \<in> set (map u_id (users s))"
    unfolding a .
  then have "\<forall>p \<in> set (posts (update_post_row txt image_url updated post_id s)).
      p_author_id p \<in> set (map u_id (users s))"
    by auto
  with assms show ?thesis
    unfolding consistent_def u c update_post_row_ids by simp
qed

lemma update_user_avatar_consistent:
  assumes "consistent s"
  shows "consistent (update_user_avatar url uid s)"
proof -
  have p: "posts (update_user_avatar url uid s) = posts s"
    and c: "comments (update_user_avatar url uid s) = comments s"
    by (simp_all add: update_user_avatar_def)
  have i: "map u_id (users (update_user_avatar url uid s)) = map u_id (users s)"
    by (simp add: update_user_avatar_def comp_def if_distrib[of u_id] cong: if_cong)
  from assms show ?thesis
    unfolding consistent_def p c i by simp
qed

lemma register_consistent:
  assumes "consistent s"
  shows "consistent (snd (register e s payload salt created_at rnd ts))"
proof (cases "insert_user (ri_name payload) (str_lower (ri_email payload))
                (hash_password e (ri_password payload) salt) created_at s")
  case (Inl err)
  with assms show ?thesis by (simp add: register_def)
next
  case (Inr r)
  obtain i s1 where r: "r = (i, s1)" by (cases r)
  have c1: "consistent s1"
    using insert_user_consistent[OF Inr[unfolded r] assms] .
  show ?thesis
  proof (cases "insert_session (foreign_keys e) (create_token e i rnd ts) i created_at s1")
    case (Inl err)
    with Inr r assms show ?thesis by (simp add: register_def)
  next
    case inr2: (Inr s2)
    from consistent_frame[OF insert_session_frame[OF inr2] c1] have "consistent s2" .
    with Inr r inr2 show ?thesis by (simp add: register_def)
  qed
qed

lemma login_consistent:
  assumes "consistent s"
  shows "consistent (snd (login e s payload rnd ts now))"
proof (cases "fetchone (filter (\<lambda>u. u_email u = str_lower (li_email payload)) (users s))")
  case None
  with assms show ?thesis by (simp add: login_def)
next
  case (Some user)
  show ?thesis
  proof (cases "verify_password e (li_password payload) (u_password_hash user)")
    case False
    with Some assms show ?thesis by (simp add: login_def)
  next
    case True
    show ?thesis
    proof (cases "insert_session (foreign_keys e) (create_token e (u_id user) rnd ts)
                    (u_id user) now s")
      case (Inl err)
      with Some True assms show ?thesis by (simp add: login_def)
    next
      case (Inr s1)
      from consistent_frame[OF insert_session_frame[OF Inr] assms] have "consistent s1" .
      with Some True Inr show ?thesis by (simp add: login_def)
    qed
  qed
qed

lemma update_avatar_consistent:
  assumes "consistent s"
  shows "consistent (snd (update_avatar e s upload user hex now))"
proof -
  obtain r s1 where up: "save_upload e upload (''user'' @ str_int (u_id user) @ ''_avatar'') hex s = (r, s1)"
    by (cases "save_upload e upload (''user'' @ str_int (u_id user) @ ''_avatar'') hex s")
  from consistent_frame[OF save_upload_frame[OF up] assms] have c1: "consistent s1" .
  show ?thesis
  proof (cases r)
    case (Inl err)
    with up c1 show ?thesis by (simp add: update_avatar_def)
  next
    case (Inr url)
    have "consistent (insert_media ''user'' (u_id user) url ''image'' now
                        (update_user_avatar url (u_id user) s1))"
      using consistent_frame[OF insert_media_frame
          update_user_avatar_consistent[OF c1, of url "u_id user"]] .
    with up Inr show ?thesis
      by (simp add: update_avatar_def Let_def split: option.splits)
  qed
qed

lemma create_post_consistent:
  assumes c: "consistent s" and u: "user \<in> set (users s)"
  shows "consistent (snd (create_post e s txt image_file user hex created_at))"
proof (cases "str_strip txt = []")
  case True
  with c show ?thesis by (simp add: create_post_def)
next
  case ne: False
  define r where "r = (case image_file of
                   None \<Rightarrow> (Inr None, s)
                 | Some upload \<Rightarrow>
                     (case save_upload e upload (''post'' @ str_int (u_id user)) hex s of
                        (Inl err, s1) \<Rightarrow> (Inl err, s1)
                      | (Inr url, s1) \<Rightarrow> (Inr (Some url), s1)))"
  obtain x s1 where r: "r = (x, s1)" by (cases r)
  have frame: "users s1 = users s \<and> posts s1 = posts s \<and> comments s1 = comments s"
  proof (cases image_file)
    case None
    with r show ?thesis by (simp add: r_def)
  next
    case (Some upload)
    obtain y t where up: "save_upload e upload (''post'' @ str_int (u_id user)) hex s = (y, t)"
      by (cases "save_upload e upload (''post'' @ str_int (u_id user)) hex s")
    from r Some up have "s1 = t" by (cases y) (simp_all add: r_def)
    with save_upload_frame[OF up] show ?thesis by simp
  qed
  then have c1: "consistent s1" using c by (rule consistent_frame)
  have run: "create_post e s txt image_file user hex created_at =
      (case r of
         (Inl err, s1) \<Rightarrow> (Inl err, s1)
       | (Inr image_url, s1) \<Rightarrow>
           (case insert_post (foreign_keys e) (u_id user) (str_strip txt) image_url created_at s1 of
              Inl err \<Rightarrow> (Inl err, s1)
            | Inr (post_id, s2) \<Rightarrow>
                let s3 = (case image_url of
                            None \<Rightarrow> s2
                          | Some url \<Rightarrow>
                              if url \<noteq> [] then insert_media ''post'' post_id url ''image'' created_at s2
                              else s2)
                in (get_post_out s3 post_id, s3)))"
    using ne by (simp add: create_post_def r_def)
  show ?thesis
  proof (cases x)
    case (Inl err)
    with run r c1 show ?thesis by simp
  next
    case (Inr image_url)
    show ?thesis
    proof (cases "insert_post (foreign_keys e) (u_id user) (str_strip txt) image_url created_at s1")
      case (Inl err)
      with run r Inr c1 show ?thesis by simp
    next
      case inr2: (Inr pr)
      obtain post_id s2 where pr: "pr = (post_id, s2)" by (cases pr)
      from u frame have "u_id user \<in> set (map u_id (users s1))" by simp
      from insert_post_consistent[OF inr2[unfolded pr] this c1] have c2: "consistent s2" .
      have "consistent (case image_url of
                            None \<Rightarrow> s2
                          | Some url \<Rightarrow>
                              if url \<noteq> [] then insert_media ''post'' post_id url ''image'' created_at s2
                              else s2)"
        using c2 consistent_frame[OF insert_media_frame c2]
        by (cases image_url) simp_all
      with run r Inr inr2 pr show ?thesis by (simp add: Let_def)
    qed
  qed
qed

lemma update_post_consistent:
  assumes c: "consistent s"
  shows "consistent (snd (update_post e s post_id txt image_file remove_image user hex now_media now_update))"
proof (cases "str_strip txt \<noteq> [] \<and> (\<exists>p. select_post s post_id = Inr (Some p) \<and> p_author_id p = u_id user)")
  case False
  then have "snd (update_post e s post_id txt image_file remove_image user hex now_media now_update) = s"
    by (auto simp: update_post_def split: option.splits sum.splits)
  with c show ?thesis by simp
next
  case True
  then obtain post where ne: "str_strip txt \<noteq> []" and post: "select_post s post_id = Inr (Some post)"
    and author: "p_author_id post = u_id user" by blast
  note run = update_post_authorized[OF ne post author, of e image_file remove_image hex now_media now_update]
  show ?thesis
  proof (cases image_file)
    case None
    with run c show ?thesis
      by (simp add: Let_def update_post_row_consistent)
  next
    case (Some upload)
    obtain y t where up: "save_upload e upload (''post'' @ str_int (u_id user)) hex s = (y, t)"
      by (cases "save_upload e upload (''post'' @ str_int (u_id user)) hex s")
    from consistent_frame[OF save_upload_frame[OF up] c] have ct: "consistent t" .
    show ?thesis
    proof (cases y)
      case (Inl err)
      with run Some up ct show ?thesis by simp
    next
      case (Inr url)
      have "consistent (insert_media ''post'' post_id url ''image'' now_media t)"
        using consistent_frame[OF insert_media_frame ct] .
      with run Some up Inr show ?thesis
        by (simp add: Let_def update_post_row_consistent)
    qed
  qed
qed

lemma delete_post_consistent:
  assumes "consistent s"
  shows "consistent (snd (delete_post e s post_id user))"
  using assms by (simp add: delete_post_def delete_post_row_consistent split: option.splits sum.splits)

lemma add_comment_consistent:
  assumes c: "consistent s" and u: "user \<in> set (users s)"
  shows "consistent (snd (add_comment e s post_id payload user created_at))"
proof (cases "insert_comment (foreign_keys e) post_id (u_id user)
                (str_strip (ci_text payload)) created_at s")
  case (Inl err)
  with c show ?thesis by (simp add: add_comment_def split: option.splits sum.splits)
next
  case (Inr r)
  obtain i s1 where r: "r = (i, s1)" by (cases r)
  from u have "u_id user \<in> set (map u_id (users s))" by simp
  from insert_comment_consistent[OF Inr[unfolded r] this c] have "consistent s1" .
  with c Inr r show ?thesis by (simp add: add_comment_def split: option.splits sum.splits)
qed

lemma like_post_consistent:
  assumes c: "consistent s"
  shows "consistent (snd (like_post e s post_id user now))"
proof (cases "insert_like (foreign_keys e) post_id (u_id user) now s")
  case (Inl err)
  with c show ?thesis by (simp add: like_post_def split: option.splits sum.splits)
next
  case (Inr s1)
  from consistent_frame[OF insert_like_frame[OF Inr] c] have "consistent s1" .
  with c Inr show ?thesis by (simp add: like_post_def split: option.splits sum.splits)
qed

lemma unlike_post_consistent:
  assumes c: "consistent s"
  shows "consistent (snd (unlike_post s post_id user))"
  using consistent_frame[OF delete_like_frame c] c by (simp add: unlike_post_def)

lemma depends_user_consistent:
  assumes "consistent s"
    and "\<And>user. user \<in> set (users s) \<Longrightarrow> consistent (handler user)"
  shows "consistent (depends_user s req handler)"
proof (cases "require_user s req")
  case (Inl err)
  with assms(1) show ?thesis by (simp add: depends_user_def)
next
  case (Inr user)
  from require_user_mem[OF Inr] assms(2) have "consistent (handler user)" by blast
  with Inr show ?thesis by (simp add: depends_user_def)
qed

lemma serve_consistent:
  assumes "consistent s"
  shows "consistent (serve e s c)"
proof (cases c)
  case (Register payload salt created_at rnd ts)
  with assms show ?thesis by (simp add: register_consistent)
next
  case (Login payload rnd ts now)
  with assms show ?thesis by (simp add: login_consistent)
next
  case (Update_avatar req upload hex now)
  with assms show ?thesis by (simp add: depends_user_consistent update_avatar_consistent)
next
  case (Create_post req body image_file hex created_at)
  with assms show ?thesis by (simp add: depends_user_consistent create_post_consistent)
next
  case (Update_post req post_id body image_file remove_image hex now_media now_update)
  with assms show ?thesis by (simp add: depends_user_consistent update_post_consistent)
next
  case (Delete_post req post_id)
  with assms show ?thesis by (simp add: depends_user_consistent delete_post_consistent)
next
  case (Add_comment req post_id payload created_at)
  with assms show ?thesis by (simp add: depends_user_consistent add_comment_consistent)
next
  case (Like_post req post_id now)
  with assms show ?thesis by (simp add: depends_user_consistent like_post_consistent)
next
  case (Unlike_post req post_id)
  with assms show ?thesis by (simp add: depends_user_consistent unlike_post_consistent)
qed

lemma reachable_consistent: "reachable e s \<Longrightarrow> consistent s"
  by (induction rule: reachable.induct) (simp_all add: consistent_init_db serve_consistent)

text \<open>
  The example stores are reached by calls of the API, starting from the empty database, on
  connections that do not enforce foreign keys.
\<close>

lemma example_stores_reachable:
  "reachable (example_env False) (st_like False) \<and> reachable (example_env False) (st_reply False)
 \<and> reachable (example_env False) st_tock \<and> reachable (example_env False) st_answer"
proof -
  have a: "st_alice False = serve (example_env False) init_db
      (Register alice_in ''a1'' ''2024-05-01T10:00:00.120000Z'' ''r1'' 1714557600)"
    by code_simp
  have b: "st_bob False = serve (example_env False) (st_alice False)
      (Register bob_in ''b2'' ''2024-05-01T10:05:00.250000Z'' ''r2'' 1714557900)"
    by code_simp
  have c: "st_post False = serve (example_env False) (st_bob False)
      (Create_post (bearer alice_token) ''hello'' (Some photo) ''c3'' ''2024-05-01T10:10:00.500000Z'')"
    by code_simp
  have d: "st_comment False = serve (example_env False) (st_post False)
      (Add_comment (bearer bob_token) 1 \<lparr>ci_text = '' nice ''\<rparr> ''2024-05-01T10:11:00.750000Z'')"
    by code_simp
  have e: "st_like False = serve (example_env False) (st_comment False)
      (Like_post (bearer bob_token) 1 ''2024-05-01T10:12:00.125000Z'')"
    by code_simp
  have f: "st_second False = serve (example_env False) (st_like False)
      (Create_post (bearer bob_token) ''second'' None ''e5'' ''2024-05-01T10:13:00.333000Z'')"
    by code_simp
  have g: "st_reply False = serve (example_env False) (st_second False)
      (Add_comment (bearer alice_token) 1 \<lparr>ci_text = ''thanks''\<rparr> ''2024-05-01T10:14:00.010000Z'')"
    by code_simp
  have h: "st_tick = serve (example_env False) (st_bob False)
      (Create_post (bearer alice_token) ''first'' None ''c3'' (now_iso noon))"
    by code_simp
  have i: "st_tock = serve (example_env False) st_tick
      (Create_post (bearer bob_token) ''second'' None ''e5'' (now_iso noon_half))"
    by code_simp
  have j: "st_ask = serve (example_env False) (st_post False)
      (Add_comment (bearer bob_token) 1 \<lparr>ci_text = ''first''\<rparr> (now_iso noon))"
    by code_simp
  have k: "st_answer = serve (example_env False) st_ask
      (Add_comment (bearer alice_token) 1 \<lparr>ci_text = ''second''\<rparr> (now_iso noon_half))"
    by code_simp
  have "reachable (example_env False) (st_alice False)"
    unfolding a by (rule reachable.call) (rule reachable.start)
  then have bob: "reachable (example_env False) (st_bob False)"
    unfolding b by (rule reachable.call)
  then have post: "reachable (example_env False) (st_post False)"
    unfolding c by (rule reachable.call)
  then have "reachable (example_env False) (st_comment False)"
    unfolding d by (rule reachable.call)
  then have like: "reachable (example_env False) (st_like False)"
    unfolding e by (rule reachable.call)
  then have "reachable (example_env False) (st_second False)"
    unfolding f by (rule reachable.call)
  then have reply: "reachable (example_env False) (st_reply False)"
    unfolding g by (rule reachable.call)
  from bob have "reachable (example_env False) st_tick"
    unfolding h by (rule reachable.call)
  then have tock: "reachable (example_env False) st_tock"
    unfolding i by (rule reachable.call)
  from post have "reachable (example_env False) st_ask"
    unfolding j by (rule reachable.call)
  then have answer: "reachable (example_env False) st_answer"
    unfolding k by (rule reachable.call)
  from like reply tock answer show ?thesis by (intro conjI)
qed

text \<open>
  What \<open>get_post\<close> returns for a post id that fits 64 bits: 404 when no post has the id;
  in a consistent store (every reachable store is consistent, lemma \<open>reachable_consistent\<close>),
  for an existing post, the post with its author and counts, the comments of the post, each
  exactly once and with the name of its author, in ascending order of the \<open>created_at\<close>
  texts, and \<open>liked_by_me\<close>, which is true exactly when the token of the request is not empty
  and resolves to a user who has a like row for the post. For any other post id the lookup
  fails with \<open>OverflowError\<close>.
\<close>
lemma get_post_page:
  "(fits_int64 post_id \<and> post_id \<notin> p_id ` set (posts s) \<longrightarrow>
      get_post s post_id req = Inl (HTTPException 404 Post_not_found))
 \<and> (\<not> fits_int64 post_id \<longrightarrow> get_post s post_id req = Inl OverflowError)
 \<and> (consistent s \<and> fits_int64 post_id \<longrightarrow> (\<forall>p \<in> set (posts s). p_id p = post_id \<longrightarrow>
      (\<exists>d author. get_post s post_id req = Inr d
         \<and> author \<in> set (users s) \<and> u_id author = p_author_id p
         \<and> pd_post d = post_out s p author False
         \<and> mset (map (\<lambda>r. (co_id r, co_post_id r, co_author_id r, co_text r, co_created_at r))
                   (pd_comments d))
           = mset (map (\<lambda>c. (c_id c, c_post_id c, c_author_id c, c_text c, c_created_at c))
                   (filter (\<lambda>c. c_post_id c = post_id) (comments s)))
         \<and> (\<forall>x \<in> set (pd_comments d). \<exists>u \<in> set (users s).
               u_id u = co_author_id x \<and> co_author_name x = u_name u
               \<and> co_author_avatar_url x = u_avatar_url u)
         \<and> sorted (map co_created_at (pd_comments d))
         \<and> (pd_liked_by_me d \<longleftrightarrow>
               bearer_token req \<noteq> [] \<and>
               (\<exists>viewer. get_user_by_token s (bearer_token req) = Some viewer
                  \<and> (\<exists>l \<in> set (likes s). l_post_id l = post_id \<and> l_user_id l = u_id viewer)))
         \<and> (authorization req = None \<or> bearer_token req = []
              \<or> get_user_by_token s (bearer_token req) = None \<longrightarrow> \<not> pd_liked_by_me d))))"
proof (intro conjI impI ballI)
  assume "fits_int64 post_id \<and> post_id \<notin> p_id ` set (posts s)"
  then show "get_post s post_id req = Inl (HTTPException 404 Post_not_found)"
    by (simp add: get_post_out_absent get_post_Inl)
next
  assume "\<not> fits_int64 post_id"
  then show "get_post s post_id req = Inl OverflowError"
    by (simp add: get_post_out_overflow get_post_Inl)
next
  fix p
  assume cf: "consistent s \<and> fits_int64 post_id" and p: "p \<in> set (posts s)" and pid: "p_id p = post_id"
  from cf have c: "consistent s" and fits: "fits_int64 (p_id p)" using pid by simp_all
  from get_post_out_present[OF c p fits] pid obtain author where
    a: "author \<in> set (users s)" "u_id author = p_author_id p"
    and g: "get_post_out s post_id = Inr (post_out s p author False)"
    by auto
  define d where "d = \<lparr>pd_post = post_out s p author False,
          pd_comments = map (\<lambda>(c, u). comment_out c u)
             (order_by_asc (\<lambda>(c, u). c_created_at c) (comments_join_users s post_id)),
          pd_liked_by_me =
            (if bearer_token req \<noteq> []
             then (case get_user_by_token s (bearer_token req) of
                     Some user \<Rightarrow> like_exists s post_id (u_id user)
                   | None \<Rightarrow> False)
             else False)\<rparr>"
  have r: "get_post s post_id req = Inr d"
    unfolding d_def by (rule get_post_Inr[OF g])
  have liked: "pd_liked_by_me d \<longleftrightarrow>
               bearer_token req \<noteq> [] \<and>
               (\<exists>viewer. get_user_by_token s (bearer_token req) = Some viewer
                  \<and> (\<exists>l \<in> set (likes s). l_post_id l = post_id \<and> l_user_id l = u_id viewer))"
    by (auto simp: d_def like_exists_set split: option.splits)
  have anon: "authorization req = None \<or> bearer_token req = []
              \<or> get_user_by_token s (bearer_token req) = None \<longrightarrow> \<not> pd_liked_by_me d"
    using liked bearer_token_absent by auto
  have m: "mset (map (\<lambda>r. (co_id r, co_post_id r, co_author_id r, co_text r, co_created_at r))
                   (pd_comments d))
           = mset (map (\<lambda>c. (c_id c, c_post_id c, c_author_id c, c_text c, c_created_at c))
                   (filter (\<lambda>c. c_post_id c = post_id) (comments s)))"
    unfolding d_def using comment_list_mset[OF c] by simp
  have au: "\<forall>x \<in> set (pd_comments d). \<exists>u \<in> set (users s).
               u_id u = co_author_id x \<and> co_author_name x = u_name u
               \<and> co_author_avatar_url x = u_avatar_url u"
    unfolding d_def using comment_list_authors by simp
  have so: "sorted (map co_created_at (pd_comments d))"
    unfolding d_def using comment_list_sorted by simp
  have pd: "pd_post d = post_out s p author False" by (simp add: d_def)
  from r a pd m au so liked anon
  show "\<exists>d author. get_post s post_id req = Inr d
         \<and> author \<in> set (users s) \<and> u_id author = p_author_id p
         \<and> pd_post d = post_out s p author False
         \<and> mset (map (\<lambda>r. (co_id r, co_post_id r, co_author_id r, co_text r, co_created_at r))
                   (pd_comments d))
           = mset (map (\<lambda>c. (c_id c, c_post_id c, c_author_id c, c_text c, c_created_at c))
                   (filter (\<lambda>c. c_post_id c = post_id) (comments s)))
         \<and> (\<forall>x \<in> set (pd_comments d). \<exists>u \<in> set (users s).
               u_id u = co_author_id x \<and> co_author_name x = u_name u
               \<and> co_author_avatar_url x = u_avatar_url u)
         \<and> sorted (map co_created_at (pd_comments d))
         \<and> (pd_liked_by_me d \<longleftrightarrow>
               bearer_token req \<noteq> [] \<and>
               (\<exists>viewer. get_user_by_token s (bearer_token req) = Some viewer
                  \<and> (\<exists>l \<in> set (likes s). l_post_id l = post_id \<and> l_user_id l = u_id viewer)))
         \<and> (authorization req = None \<or> bearer_token req = []
              \<or> get_user_by_token s (bearer_token req) = None \<longrightarrow> \<not> pd_liked_by_me d)"
    by (intro exI[of _ d] exI[of _ author] conjI) assumption+
qed

text \<open>
  Claim C9. \<open>get_post\<close> orders the comments by the \<open>created_at\<close> text of \<open>_now_iso\<close>,
  which has no fraction on a full second. Bob comments on Alice's post at 12:00:00 sharp and
  Alice answers half a second later: the answer is listed before the comment it answers,
  so the comments are not oldest first. And for the post id $2^{63}$, which no post has, the
  call fails with \<open>OverflowError\<close> and not with 404.
\<close>
theorem get_post_lists_newer_comment_first:
  "earlier noon noon_half
 \<and> map c_created_at (comments st_answer) = [now_iso noon, now_iso noon_half]
 \<and> get_post st_answer 1 (bearer bob_token) = Inr answer_detail
 \<and> map co_created_at (pd_comments answer_detail) = [now_iso noon_half, now_iso noon]
 \<and> 9223372036854775808 \<notin> p_id ` set (posts st_answer)
 \<and> get_post st_answer 9223372036854775808 (bearer bob_token) = Inl OverflowError"
  by code_simp

end
